theory Spec2Isabelle
  imports Complex_Main "HOL-Library.Char_ord" "HOL-Library.List_Lexorder"
begin

section \<open>Instants, durations and number formatting\<close>

text \<open>
  A Go \<^verbatim>\<open>time.Time\<close> is modelled by the instant it denotes: nanoseconds since the Unix
  epoch, as an integer. A \<^verbatim>\<open>time.Duration\<close> is a number of nanoseconds. The location
  attached to a Go time only matters where the wall clock is read (hour, minute, weekday);
  there it is an explicit offset in seconds.
\<close>

type_synonym instant = int
type_synonym duration = int

definition Second :: duration where
  "Second = 1000000000"

definition Unix :: "instant \<Rightarrow> int" where
  "Unix t = t div Second"

definition Before :: "instant \<Rightarrow> instant \<Rightarrow> bool" where
  "Before t u = (t < u)"

definition After :: "instant \<Rightarrow> instant \<Rightarrow> bool" where
  "After t u = (t > u)"

definition Add :: "instant \<Rightarrow> duration \<Rightarrow> instant" where
  "Add t d = t + d"

text \<open>
  \<^verbatim>\<open>time.Until(t)\<close> is \<^verbatim>\<open>t.Sub(time.Now())\<close>; the clock reading is the first argument.
  A duration is a 64-bit count of nanoseconds: \<^verbatim>\<open>Sub\<close> returns the largest or the smallest
  duration when the difference does not fit.
\<close>

definition maxDuration :: duration where
  "maxDuration = 9223372036854775807"

definition minDuration :: duration where
  "minDuration = - 9223372036854775808"

definition Until :: "instant \<Rightarrow> instant \<Rightarrow> duration" where
  "Until now t =
     (let d = t - now
      in if d > maxDuration then maxDuration else if d < minDuration then minDuration else d)"

text \<open>\<^verbatim>\<open>fmt.Sprintf("%d", n)\<close>: the decimal digits, with a minus sign for a negative number.\<close>

definition digit :: "nat \<Rightarrow> char" where
  "digit n = char_of (48 + n)"

fun dec_nat :: "nat \<Rightarrow> string" where
  "dec_nat n = (if n < 10 then [digit n] else dec_nat (n div 10) @ [digit (n mod 10)])"

declare dec_nat.simps [simp del]

definition fmt_d :: "int \<Rightarrow> string" where
  "fmt_d i = (if i < 0 then CHR ''-'' # dec_nat (nat (- i)) else dec_nat (nat i))"

text \<open>\<^verbatim>\<open>strings.ToUpper\<close> on the ASCII letters (exchange codes and symbols are ASCII).\<close>

definition upper_char :: "char \<Rightarrow> char" where
  "upper_char c = (if CHR ''a'' \<le> c \<and> c \<le> CHR ''z'' then char_of (of_char c - (32::nat)) else c)"

definition ToUpper :: "string \<Rightarrow> string" where
  "ToUpper s = map upper_char s"

section \<open>models: orders and cache entries\<close>

text \<open>
  A \<^verbatim>\<open>float64\<close> as far as the code looks at it: a number, an infinity or not-a-number
  (\<^verbatim>\<open>strconv.ParseFloat\<close> reads all of them from a cell). \<^verbatim>\<open>x > 0\<close> is false of
  not-a-number.
\<close>

datatype float64 = Num real | PlusInf | MinusInf | NaN

fun is_finite :: "float64 \<Rightarrow> bool" where
  "is_finite (Num r) = True"
| "is_finite x = False"

fun float_gt0 :: "float64 \<Rightarrow> bool" where
  "float_gt0 (Num r) = (r > 0)"
| "float_gt0 PlusInf = True"
| "float_gt0 x = False"

record Order =
  ID :: string
  Symbol :: string
  Exchange :: string
  Price :: float64
  Quantity :: int
  OrderType :: string
  Side :: string
  ScheduledTime :: instant
  CreatedAt :: instant
  IsAMO :: bool

record OrderCacheEntry =
  entry_Order :: Order
  ExpiryTime :: instant
  entry_CreatedAt :: instant

record ExecutionResult =
  res_OrderID :: string
  Success :: bool
  ExecutionID :: string
  ExecutedAt :: instant
  ErrorMessage :: string
  ExecutedPrice :: float64
  ExecutedQuantity :: int

text \<open>
  \<^verbatim>\<open>GenerateOrderID\<close>: the symbol, a colon and the scheduled time in RFC 3339. The
  formatter is the standard library's; it is a parameter of the model.
\<close>

definition GenerateOrderID :: "(instant \<Rightarrow> string) \<Rightarrow> string \<Rightarrow> instant \<Rightarrow> string" where
  "GenerateOrderID rfc3339 symbol scheduledTime = symbol @ '':'' @ rfc3339 scheduledTime"

section \<open>broker/market\_hours.go and the reader's AMO rule\<close>

text \<open>
  The wall clock of an instant in a location with a fixed offset. \<^verbatim>\<open>Asia/Kolkata\<close> is
  UTC+05:30 (no daylight saving; fixed since 1945); when the zone database cannot be
  loaded the source falls back to UTC. \<open>tz_ok\<close> says whether \<^verbatim>\<open>time.LoadLocation\<close>
  succeeded. Go numbers the weekdays from Sunday = 0; 1 January 1970 was a Thursday.
\<close>

definition location_offset :: "bool \<Rightarrow> int" where
  "location_offset tz_ok = (if tz_ok then 19800 else 0)"

definition local_seconds :: "bool \<Rightarrow> instant \<Rightarrow> int" where
  "local_seconds tz_ok t = Unix t + location_offset tz_ok"

definition Weekday :: "bool \<Rightarrow> instant \<Rightarrow> int" where
  "Weekday tz_ok t = (local_seconds tz_ok t div 86400 + 4) mod 7"

definition Hour :: "bool \<Rightarrow> instant \<Rightarrow> int" where
  "Hour tz_ok t = (local_seconds tz_ok t mod 86400) div 3600"

definition Minute :: "bool \<Rightarrow> instant \<Rightarrow> int" where
  "Minute tz_ok t = (local_seconds tz_ok t mod 3600) div 60"

definition Saturday :: int where "Saturday = 6"
definition Sunday :: int where "Sunday = 0"

record MarketHours =
  OpenTime :: int
  CloseTime :: int

definition NewMarketHours :: MarketHours where
  "NewMarketHours = \<lparr>OpenTime = 9 * 60 + 0, CloseTime = 15 * 60 + 30\<rparr>"

definition IsMarketOpen :: "MarketHours \<Rightarrow> bool \<Rightarrow> instant \<Rightarrow> bool" where
  "IsMarketOpen m tz_ok now =
     (let weekday = Weekday tz_ok now in
      if weekday = Saturday \<or> weekday = Sunday then False
      else let hour = Hour tz_ok now; minute = Minute tz_ok now;
               minutesFromMidnight = hour * 60 + minute
           in minutesFromMidnight \<ge> OpenTime m \<and> minutesFromMidnight < CloseTime m)"

definition ShouldUseAMO :: "MarketHours \<Rightarrow> bool \<Rightarrow> instant \<Rightarrow> bool" where
  "ShouldUseAMO m tz_ok now = (\<not> IsMarketOpen m tz_ok now)"

text \<open>\<^verbatim>\<open>SheetsReader.shouldUseAMO\<close> (reader/sheets.go): the reader's own rule.\<close>

definition shouldUseAMO :: "bool \<Rightarrow> instant \<Rightarrow> bool" where
  "shouldUseAMO tz_ok scheduledTime =
     (let hour = Hour tz_ok scheduledTime; minute = Minute tz_ok scheduledTime;
          minutesFromMidnight = hour * 60 + minute;
          openTime = 9 * 60 + 0;
          closeTime = 15 * 60 + 30
      in minutesFromMidnight < openTime \<or> minutesFromMidnight \<ge> closeTime)"

section \<open>reader/sheets.go: from a parsed row to orders\<close>

text \<open>
  The cells of a row once \<^verbatim>\<open>parseRows\<close> has read them: the price, the symbol, the
  instant built by \<^verbatim>\<open>time.Date\<close> from the date and time cells, the result of
  \<^verbatim>\<open>strconv.Atoi\<close> on the lots cell (\<open>None\<close> when it fails), the total quantity as
  read from the quantity column or computed from the money column, and the trimmed
  exchange cell.
\<close>

record ParsedRow =
  row_price :: float64
  row_symbol :: string
  row_scheduledTime :: instant
  row_lots :: "int option"
  row_totalQuantity :: int
  row_exchange :: string

text \<open>The loop \<^verbatim>\<open>for orderNum := 1; orderNum <= lots; orderNum++\<close>, appending one order each turn.\<close>

function lots_loop :: "(int \<Rightarrow> Order) \<Rightarrow> int \<Rightarrow> int \<Rightarrow> Order list \<Rightarrow> Order list" where
  "lots_loop body lots orderNum orders =
     (if orderNum \<le> lots then lots_loop body lots (orderNum + 1) (orders @ [body orderNum])
      else orders)"
  by pat_completeness auto
termination
  by (relation "measure (\<lambda>(body, lots, orderNum, orders). nat (lots + 1 - orderNum))") auto

declare lots_loop.simps [simp del]

definition lot_order ::
  "(instant \<Rightarrow> string) \<Rightarrow> string \<Rightarrow> string \<Rightarrow> float64 \<Rightarrow> string \<Rightarrow> instant \<Rightarrow> instant \<Rightarrow> bool
     \<Rightarrow> int \<Rightarrow> int \<Rightarrow> int \<Rightarrow> int \<Rightarrow> Order" where
  "lot_order rfc3339 symbol exchange price side scheduledTime now isAMO lots baseQuantity remainder orderNum =
     (let orderQuantity = (if orderNum \<le> remainder then baseQuantity + 1 else baseQuantity);
          orderID = GenerateOrderID rfc3339 symbol scheduledTime;
          orderID = (if lots > 1 then orderID @ ''-'' @ fmt_d orderNum else orderID)
      in \<lparr>ID = orderID, Symbol = symbol, Exchange = exchange, Price = price,
          Quantity = orderQuantity, OrderType = ''LIMIT'', Side = side,
          ScheduledTime = scheduledTime, CreatedAt = now, IsAMO = isAMO\<rparr>)"

text \<open>
  One turn of the row loop of \<^verbatim>\<open>parseRows\<close>, from the defaulting of the lots on:
  \<open>now\<close> is the clock read at the start of \<^verbatim>\<open>parseRows\<close>, \<open>nowIST\<close> the clock read for
  this row. A row scheduled in the past adds nothing (\<^verbatim>\<open>continue\<close>).
\<close>

definition parse_row :: "(instant \<Rightarrow> string) \<Rightarrow> bool \<Rightarrow> string \<Rightarrow> instant \<Rightarrow> instant \<Rightarrow> ParsedRow
     \<Rightarrow> Order list \<Rightarrow> Order list" where
  "parse_row rfc3339 tz_ok side now nowIST row orders =
     (let lots = (case row_lots row of None \<Rightarrow> 1 | Some l \<Rightarrow> if l \<le> 0 then 1 else l);
          totalQuantity = (if row_totalQuantity row \<le> 0 then 1 else row_totalQuantity row);
          baseQuantity = totalQuantity div lots;
          remainder = totalQuantity mod lots;
          exchange = ToUpper (if row_exchange row = [] then ''NSE'' else row_exchange row);
          scheduledTime = row_scheduledTime row
      in if Before scheduledTime nowIST then orders
         else let isAMO = shouldUseAMO tz_ok scheduledTime
              in lots_loop (lot_order rfc3339 (row_symbol row) exchange (row_price row) side
                              scheduledTime now isAMO lots baseQuantity remainder)
                   lots 1 orders)"

text \<open>\<^verbatim>\<open>parseRows\<close> over the rows that passed the cell checks, each with its clock reading.\<close>

fun parseRows :: "(instant \<Rightarrow> string) \<Rightarrow> bool \<Rightarrow> string \<Rightarrow> instant \<Rightarrow> (ParsedRow \<times> instant) list
     \<Rightarrow> Order list \<Rightarrow> Order list" where
  "parseRows rfc3339 tz_ok side now [] orders = orders"
| "parseRows rfc3339 tz_ok side now ((row, nowIST) # rows) orders =
     parseRows rfc3339 tz_ok side now rows (parse_row rfc3339 tz_ok side now nowIST row orders)"

section \<open>The Redis server as the cache client sees it\<close>

text \<open>
  The keys written by the cache are string keys (\<^verbatim>\<open>order:{id}\<close>, \<^verbatim>\<open>lock:order:{id}\<close>)
  and one sorted set, \<^verbatim>\<open>pending_orders\<close>. A string key holds its value and the time-to-live
  it was written with; the server drops a key whose time-to-live has run out on its own
  clock, so a state of the model is the set of keys alive when a command is served. A member
  of a sorted set has one score: \<^verbatim>\<open>ZADD\<close> on a member that is present replaces its score.
  \<^verbatim>\<open>ZRANGEBYSCORE\<close> answers by increasing score, members of equal score in lexicographic
  order. A value is the JSON of a cache entry or any other text.

  A command can fail (the connection, a timeout). \<open>faults\<close> lists, for the commands to
  come, whether each one fails; a failed command leaves the data as it was. The empty list
  is a server that answers every command.
\<close>

datatype rvalue = Json OrderCacheEntry | Raw string

datatype redis_error = RedisNil | ConnError

record redis =
  strings :: "string \<rightharpoonup> rvalue \<times> duration"
  pending_orders :: "(string \<times> int) list"
  faults :: "bool list"

definition next_fault :: "redis \<Rightarrow> bool \<times> redis" where
  "next_fault s = (case faults s of [] \<Rightarrow> (False, s) | b # bs \<Rightarrow> (b, s\<lparr>faults := bs\<rparr>))"

definition redis_Set :: "string \<Rightarrow> rvalue \<Rightarrow> duration \<Rightarrow> redis \<Rightarrow> (redis_error + unit) \<times> redis" where
  "redis_Set key v ttl s =
     (case next_fault s of
        (True, s1) \<Rightarrow> (Inl ConnError, s1)
      | (False, s1) \<Rightarrow> (Inr (), s1\<lparr>strings := (strings s1)(key \<mapsto> (v, ttl))\<rparr>))"

definition redis_SetNX :: "string \<Rightarrow> rvalue \<Rightarrow> duration \<Rightarrow> redis \<Rightarrow> (redis_error + bool) \<times> redis" where
  "redis_SetNX key v ttl s =
     (case next_fault s of
        (True, s1) \<Rightarrow> (Inl ConnError, s1)
      | (False, s1) \<Rightarrow>
          (case strings s1 key of
             None \<Rightarrow> (Inr True, s1\<lparr>strings := (strings s1)(key \<mapsto> (v, ttl))\<rparr>)
           | Some old \<Rightarrow> (Inr False, s1)))"

definition redis_Get :: "string \<Rightarrow> redis \<Rightarrow> (redis_error + rvalue) \<times> redis" where
  "redis_Get key s =
     (case next_fault s of
        (True, s1) \<Rightarrow> (Inl ConnError, s1)
      | (False, s1) \<Rightarrow>
          (case strings s1 key of
             None \<Rightarrow> (Inl RedisNil, s1)
           | Some (v, ttl) \<Rightarrow> (Inr v, s1)))"

definition redis_Del :: "string \<Rightarrow> redis \<Rightarrow> (redis_error + unit) \<times> redis" where
  "redis_Del key s =
     (case next_fault s of
        (True, s1) \<Rightarrow> (Inl ConnError, s1)
      | (False, s1) \<Rightarrow> (Inr (), s1\<lparr>strings := (strings s1)(key := None)\<rparr>))"

definition redis_ZAdd :: "string \<Rightarrow> int \<Rightarrow> redis \<Rightarrow> (redis_error + unit) \<times> redis" where
  "redis_ZAdd member score s =
     (case next_fault s of
        (True, s1) \<Rightarrow> (Inl ConnError, s1)
      | (False, s1) \<Rightarrow>
          (Inr (), s1\<lparr>pending_orders :=
                      filter (\<lambda>e. fst e \<noteq> member) (pending_orders s1) @ [(member, score)]\<rparr>))"

definition redis_ZRem :: "string \<Rightarrow> redis \<Rightarrow> (redis_error + unit) \<times> redis" where
  "redis_ZRem member s =
     (case next_fault s of
        (True, s1) \<Rightarrow> (Inl ConnError, s1)
      | (False, s1) \<Rightarrow>
          (Inr (), s1\<lparr>pending_orders := filter (\<lambda>e. fst e \<noteq> member) (pending_orders s1)\<rparr>))"

definition redis_ZRangeByScore :: "int \<Rightarrow> int \<Rightarrow> redis \<Rightarrow> (redis_error + string list) \<times> redis" where
  "redis_ZRangeByScore lo hi s =
     (case next_fault s of
        (True, s1) \<Rightarrow> (Inl ConnError, s1)
      | (False, s1) \<Rightarrow>
          (Inr (map fst (sort_key snd (sort_key fst
                  (filter (\<lambda>e. lo \<le> snd e \<and> snd e \<le> hi) (pending_orders s1))))), s1))"

definition empty_redis :: redis where
  "empty_redis = \<lparr>strings = Map.empty, pending_orders = [], faults = []\<rparr>"

section \<open>cache/redis.go\<close>

text \<open>
  \<^verbatim>\<open>ToJSON\<close> and \<^verbatim>\<open>FromJSON\<close>. \<^verbatim>\<open>json.Marshal\<close> refuses a price that is not a number
  or is infinite, and a time whose year, read in the time's own location, is outside 0 to
  9999. The times of an order and the expiry are in the reader's location (\<open>tz_ok\<close>, as in
  the wall clock above); the entry's own creation time is \<^verbatim>\<open>time.Now()\<close> in the machine's
  zone, \<open>local\<close> seconds east of UTC. An entry that is marshalled is read back as it was
  written; any other text is not an entry.
\<close>

definition year_in_range :: "int \<Rightarrow> instant \<Rightarrow> bool" where
  "year_in_range offset t =
     (- 62167219200 \<le> Unix t + offset \<and> Unix t + offset < 253402300800)"

definition ToJSON :: "bool \<Rightarrow> int \<Rightarrow> OrderCacheEntry \<Rightarrow> rvalue option" where
  "ToJSON tz_ok local e =
     (if is_finite (Price (entry_Order e))
         \<and> year_in_range (location_offset tz_ok) (ScheduledTime (entry_Order e))
         \<and> year_in_range (location_offset tz_ok) (CreatedAt (entry_Order e))
         \<and> year_in_range (location_offset tz_ok) (ExpiryTime e)
         \<and> year_in_range local (entry_CreatedAt e)
      then Some (Json e) else None)"

fun FromJSON :: "rvalue \<Rightarrow> OrderCacheEntry option" where
  "FromJSON (Json e) = Some e"
| "FromJSON (Raw t) = None"

text \<open>The keys: \<^verbatim>\<open>fmt.Sprintf("order:%s", orderID)\<close> and \<^verbatim>\<open>fmt.Sprintf("lock:order:%s", orderID)\<close>.\<close>

definition order_key :: "string \<Rightarrow> string" where
  "order_key orderID = ''order:'' @ orderID"

definition lock_key :: "string \<Rightarrow> string" where
  "lock_key orderID = ''lock:order:'' @ orderID"

datatype cache_error =
    MarshalFailed | ExpiryInPast | StoreFailed | PendingAddFailed | QueryFailed
  | RemoveFailed | RemovePendingFailed | LockFailed | ReleaseFailed

text \<open>
  \<^verbatim>\<open>StoreOrder\<close> reads the clock twice: \<open>createdAt\<close> for the entry, \<open>now\<close> in
  \<^verbatim>\<open>time.Until\<close>.
\<close>

definition StoreOrder ::
  "bool \<Rightarrow> int \<Rightarrow> instant \<Rightarrow> instant \<Rightarrow> Order \<Rightarrow> instant \<Rightarrow> redis
     \<Rightarrow> (cache_error + unit) \<times> redis" where
  "StoreOrder tz_ok local createdAt now order expiryTime s =
     (let orderID = ID order;
          entry = \<lparr>entry_Order = order, ExpiryTime = expiryTime, entry_CreatedAt = createdAt\<rparr>
      in case ToJSON tz_ok local entry of
           None \<Rightarrow> (Inl MarshalFailed, s)
         | Some data \<Rightarrow>
             (let key = order_key orderID;
                  ttl = Until now expiryTime
              in if ttl \<le> 0 then (Inl ExpiryInPast, s)
                 else case redis_Set key data ttl s of
                        (Inl err, s1) \<Rightarrow> (Inl StoreFailed, s1)
                      | (Inr u, s1) \<Rightarrow>
                          (let score = Unix (ScheduledTime order)
                           in case redis_ZAdd orderID score s1 of
                                (Inl err, s2) \<Rightarrow> (Inl PendingAddFailed, s2)
                              | (Inr u, s2) \<Rightarrow> (Inr (), s2))))"

definition RemoveOrder :: "string \<Rightarrow> redis \<Rightarrow> (cache_error + unit) \<times> redis" where
  "RemoveOrder orderID s =
     (let key = order_key orderID
      in case redis_Del key s of
           (Inl err, s1) \<Rightarrow> (Inl RemoveFailed, s1)
         | (Inr u, s1) \<Rightarrow>
             (case redis_ZRem orderID s1 of
                (Inl err, s2) \<Rightarrow> (Inl RemovePendingFailed, s2)
              | (Inr u, s2) \<Rightarrow> (Inr (), s2)))"

text \<open>One turn of the loop of \<^verbatim>\<open>GetOrdersDueForExecution\<close> over the ids of the range query.\<close>

definition due_step :: "instant \<Rightarrow> string \<Rightarrow> Order list \<Rightarrow> redis \<Rightarrow> Order list \<times> redis" where
  "due_step now orderID orders s =
     (let key = order_key orderID
      in case redis_Get key s of
           (Inl RedisNil, s1) \<Rightarrow> (orders, snd (redis_ZRem orderID s1))
         | (Inl ConnError, s1) \<Rightarrow> (orders, s1)
         | (Inr data, s1) \<Rightarrow>
             (case FromJSON data of
                None \<Rightarrow> (orders, s1)
              | Some entry \<Rightarrow>
                  if After now (ExpiryTime entry)
                  then (orders, snd (RemoveOrder (ID (entry_Order entry)) s1))
                  else (orders @ [entry_Order entry], s1)))"

fun due_loop :: "instant \<Rightarrow> string list \<Rightarrow> Order list \<Rightarrow> redis \<Rightarrow> Order list \<times> redis" where
  "due_loop now [] orders s = (orders, s)"
| "due_loop now (orderID # orderIDs) orders s =
     (case due_step now orderID orders s of (orders1, s1) \<Rightarrow> due_loop now orderIDs orders1 s1)"

definition GetOrdersDueForExecution :: "instant \<Rightarrow> redis \<Rightarrow> (cache_error + Order list) \<times> redis" where
  "GetOrdersDueForExecution now s =
     (let maxScore = Unix now
      in case redis_ZRangeByScore 0 maxScore s of
           (Inl err, s1) \<Rightarrow> (Inl QueryFailed, s1)
         | (Inr orderIDs, s1) \<Rightarrow>
             (case due_loop now orderIDs [] s1 of (orders, s2) \<Rightarrow> (Inr orders, s2)))"

definition TryLock :: "string \<Rightarrow> duration \<Rightarrow> redis \<Rightarrow> (cache_error + bool) \<times> redis" where
  "TryLock orderID ttl s =
     (let lockKey = lock_key orderID
      in case redis_SetNX lockKey (Raw ''1'') ttl s of
           (Inl err, s1) \<Rightarrow> (Inl LockFailed, s1)
         | (Inr result, s1) \<Rightarrow> (Inr result, s1))"

definition ReleaseLock :: "string \<Rightarrow> redis \<Rightarrow> (cache_error + unit) \<times> redis" where
  "ReleaseLock orderID s =
     (let lockKey = lock_key orderID
      in case redis_Del lockKey s of
           (Inl err, s1) \<Rightarrow> (Inl ReleaseFailed, s1)
         | (Inr u, s1) \<Rightarrow> (Inr (), s1))"

text \<open>
  The cache loop of \<^verbatim>\<open>readAndCacheOrders\<close>: every order is stored with the expiry
  ten seconds after its scheduled time; a failed store is logged and the loop goes on.
  \<open>clock\<close> gives the two clock readings of the \<^verbatim>\<open>StoreOrder\<close> call of an order.
\<close>

fun cache_orders ::
  "bool \<Rightarrow> int \<Rightarrow> (Order \<Rightarrow> instant \<times> instant) \<Rightarrow> Order list \<Rightarrow> redis \<Rightarrow> redis" where
  "cache_orders tz_ok local clock [] s = s"
| "cache_orders tz_ok local clock (order # orders) s =
     (let expiryTime = Add (ScheduledTime order) (10 * Second)
      in cache_orders tz_ok local clock orders
           (snd (StoreOrder tz_ok local (fst (clock order)) (snd (clock order)) order expiryTime s)))"

text \<open>
  \<^verbatim>\<open>readAndCacheOrders\<close>: the two sheets are read (\<open>None\<close> when \<^verbatim>\<open>readSheet\<close> fails,
  otherwise the rows that passed the cell checks), parsed and cached.
\<close>

definition readAndCacheOrders ::
  "(instant \<Rightarrow> string) \<Rightarrow> bool \<Rightarrow> int \<Rightarrow> instant \<Rightarrow> instant \<Rightarrow> (Order \<Rightarrow> instant \<times> instant)
     \<Rightarrow> (ParsedRow \<times> instant) list option \<Rightarrow> (ParsedRow \<times> instant) list option \<Rightarrow> redis \<Rightarrow> redis" where
  "readAndCacheOrders rfc3339 tz_ok local nowBuy nowSell clock buy sell s =
     (let buyOrders = (case buy of None \<Rightarrow> [] | Some rows \<Rightarrow> parseRows rfc3339 tz_ok ''Buy'' nowBuy rows []);
          sellOrders = (case sell of None \<Rightarrow> [] | Some rows \<Rightarrow> parseRows rfc3339 tz_ok ''Sell'' nowSell rows []);
          allOrders = buyOrders @ sellOrders
      in cache_orders tz_ok local clock allOrders s)"

section \<open>broker/broker.go and trigger/trigger.go\<close>

text \<open>
  What the dispatcher cannot decide itself is its environment: whether the worker finds
  the context cancelled before it takes an order, whether the rate limiter's
  \<^verbatim>\<open>Wait(ctx)\<close> returns without error, and the pair the broker returns for an order.
  The calls the dispatcher makes are recorded in order of occurrence;
  \<open>LogOutcome\<close> is the call of \<^verbatim>\<open>logProfilingMetrics\<close>, which emits the outcome of the
  attempt (the order id and whether it succeeded).
\<close>

record environment =
  ctx_done :: "Order \<Rightarrow> bool"
  wait_ok :: "Order \<Rightarrow> bool"
  broker_reply :: "Order \<Rightarrow> ExecutionResult \<times> string option"

datatype event =
    CallTryLock string
  | CallRateWait string
  | CallBroker Order
  | CallRemoveOrder string
  | LogOutcome string bool
  | CallReleaseLock string

definition zero_result :: ExecutionResult where
  "zero_result = \<lparr>res_OrderID = [], Success = False, ExecutionID = [], ExecutedAt = 0,
                   ErrorMessage = [], ExecutedPrice = Num 0, ExecutedQuantity = 0\<rparr>"

text \<open>\<^verbatim>\<open>BrokerManager.ExecuteOrder\<close>: the rate limiter first, then one call of the broker.\<close>

definition BrokerManager_ExecuteOrder ::
  "environment \<Rightarrow> Order \<Rightarrow> event list \<times> ExecutionResult \<times> string option" where
  "BrokerManager_ExecuteOrder env order =
     (if \<not> wait_ok env order
      then ([CallRateWait (ID order)], zero_result, Some ''rate limit wait failed'')
      else case broker_reply env order of
             (execResult, Some err) \<Rightarrow>
               ([CallRateWait (ID order), CallBroker order], execResult, Some err)
           | (execResult, None) \<Rightarrow>
               ([CallRateWait (ID order), CallBroker order], execResult, None))"

definition removeOrder :: "string \<Rightarrow> redis \<Rightarrow> event list \<times> redis" where
  "removeOrder orderID s = ([CallRemoveOrder orderID], snd (RemoveOrder orderID s))"

text \<open>
  \<^verbatim>\<open>executeOrder\<close>. The deferred \<^verbatim>\<open>ReleaseLock\<close> runs last on every path that acquired
  the lock.
\<close>

definition executeOrder :: "environment \<Rightarrow> Order \<Rightarrow> redis \<Rightarrow> event list \<times> redis" where
  "executeOrder env order s =
     (let lockTTL = 30 * Second
      in case TryLock (ID order) lockTTL s of
           (Inl err, s1) \<Rightarrow>
             (case removeOrder (ID order) s1 of
                (ev, s2) \<Rightarrow> (CallTryLock (ID order) # ev, s2))
         | (Inr acquired, s1) \<Rightarrow>
             if \<not> acquired then ([CallTryLock (ID order)], s1)
             else (case BrokerManager_ExecuteOrder env order of
                     (bev, result, Some err) \<Rightarrow>
                       (case removeOrder (ID order) s1 of
                          (rmev, s2) \<Rightarrow>
                            (CallTryLock (ID order) # bev @ [LogOutcome (ID order) False] @ rmev
                               @ [CallReleaseLock (ID order)],
                             snd (ReleaseLock (ID order) s2)))
                   | (bev, result, None) \<Rightarrow>
                       (case removeOrder (ID order) s1 of
                          (rmev, s2) \<Rightarrow>
                            (CallTryLock (ID order) # bev @ rmev
                               @ [LogOutcome (ID order) (Success result)]
                               @ [CallReleaseLock (ID order)],
                             snd (ReleaseLock (ID order) s2)))))"

text \<open>
  \<^verbatim>\<open>worker\<close>: orders are taken from the channel one at a time; a worker that finds the
  context cancelled returns.
\<close>

fun worker :: "environment \<Rightarrow> Order list \<Rightarrow> redis \<Rightarrow> event list \<times> redis" where
  "worker env [] s = ([], s)"
| "worker env (order # orders) s =
     (if ctx_done env order then ([], s)
      else case executeOrder env order s of
             (ev, s1) \<Rightarrow> (case worker env orders s1 of (evs, s2) \<Rightarrow> (ev @ evs, s2)))"

text \<open>
  \<^verbatim>\<open>ExecuteDueOrders\<close>: the due orders are read; with none the function returns at once;
  otherwise they are handed to the worker pool. The model runs the schedule in which the
  orders are taken from the channel one after the other.
\<close>

definition ExecuteDueOrders ::
  "environment \<Rightarrow> instant \<Rightarrow> redis \<Rightarrow> (cache_error + unit) \<times> event list \<times> redis" where
  "ExecuteDueOrders env now s =
     (case GetOrdersDueForExecution now s of
        (Inl err, s1) \<Rightarrow> (Inl err, [], s1)
      | (Inr orders, s1) \<Rightarrow>
          if length orders = 0 then (Inr (), [], s1)
          else (case worker env orders s1 of (evs, s2) \<Rightarrow> (Inr (), evs, s2)))"

text \<open>Whether \<open>a\<close> occurs in a trace before the first \<open>b\<close>, and \<open>b\<close> occurs.\<close>

definition precedes :: "event \<Rightarrow> event \<Rightarrow> event list \<Rightarrow> bool" where
  "precedes a b tr = (a \<in> set (takeWhile (\<lambda>x. x \<noteq> b) tr) \<and> b \<in> set tr)"

definition is_broker_call :: "event \<Rightarrow> bool" where
  "is_broker_call e = (case e of CallBroker order \<Rightarrow> True | _ \<Rightarrow> False)"

section \<open>config/config.go: the broker options\<close>

record RateLimitConfig =
  RequestsPerSecond :: int
  BurstSize :: int

record OrderSplittingConfig =
  MaxOrderSize :: int
  Enabled :: bool

record BrokerConfig =
  ConfigPath :: string
  Type :: string
  APIKey :: string
  APISecret :: string
  BaseURL :: string
  RateLimit :: RateLimitConfig
  OrderSplitting :: OrderSplittingConfig

text \<open>The struct \<^verbatim>\<open>fileConfig\<close> that the broker file is unmarshalled into.\<close>

record fileConfig =
  file_Type :: string
  file_APIKey :: string
  file_APISecret :: string
  file_BaseURL :: string
  file_RateLimit :: RateLimitConfig
  file_OrderSplitting :: OrderSplittingConfig

text \<open>
  Reading the broker file: \<^verbatim>\<open>os.ReadFile\<close> fails, or the bytes are not JSON for the
  struct, or they are (a field the file does not give has its zero value).
\<close>

datatype file_read = ReadFailed | BadJSON | Parsed fileConfig

text \<open>\<^verbatim>\<open>os.Getenv\<close> gives the empty string for a variable that is not set.\<close>

definition Getenv :: "(string \<rightharpoonup> string) \<Rightarrow> string \<Rightarrow> string" where
  "Getenv env key = (case env key of None \<Rightarrow> [] | Some v \<Rightarrow> v)"

definition getEnv :: "(string \<rightharpoonup> string) \<Rightarrow> string \<Rightarrow> string \<Rightarrow> string" where
  "getEnv env key defaultValue =
     (let v = Getenv env key in if v \<noteq> [] then v else defaultValue)"

text \<open>
  \<^verbatim>\<open>strconv.Atoi\<close>: an optional sign and decimal digits; the value and whether the
  conversion succeeded. A syntax error gives 0, a value out of the 64-bit range the
  nearest bound.
\<close>

definition is_digit :: "char \<Rightarrow> bool" where
  "is_digit c = (CHR ''0'' \<le> c \<and> c \<le> CHR ''9'')"

definition digit_val :: "char \<Rightarrow> int" where
  "digit_val c = int (of_char c) - 48"

definition Atoi :: "string \<Rightarrow> int \<times> bool" where
  "Atoi s =
     (let neg = (s \<noteq> [] \<and> hd s = CHR ''-'');
          ds = (if s \<noteq> [] \<and> (hd s = CHR ''-'' \<or> hd s = CHR ''+'') then tl s else s)
      in if ds = [] \<or> \<not> list_all is_digit ds then (0, False)
         else let n = foldl (\<lambda>a c. a * 10 + digit_val c) 0 ds;
                  v = (if neg then - n else n)
              in if v > 9223372036854775807 then (9223372036854775807, False)
                 else if v < - 9223372036854775808 then (- 9223372036854775808, False)
                 else (v, True))"

definition loadBrokerConfigFromFile :: "(string \<Rightarrow> file_read) \<Rightarrow> BrokerConfig \<Rightarrow> string + BrokerConfig" where
  "loadBrokerConfigFromFile fs c =
     (case fs (ConfigPath c) of
        ReadFailed \<Rightarrow> Inr c
      | BadJSON \<Rightarrow> Inl ''invalid broker config''
      | Parsed fileConfig \<Rightarrow>
          (let c = (if file_Type fileConfig \<noteq> [] then c\<lparr>Type := file_Type fileConfig\<rparr> else c);
               c = (if file_APIKey fileConfig \<noteq> [] then c\<lparr>APIKey := file_APIKey fileConfig\<rparr> else c);
               c = (if file_APISecret fileConfig \<noteq> [] then c\<lparr>APISecret := file_APISecret fileConfig\<rparr> else c);
               c = (if file_BaseURL fileConfig \<noteq> [] then c\<lparr>BaseURL := file_BaseURL fileConfig\<rparr> else c);
               c = (if RequestsPerSecond (file_RateLimit fileConfig) > 0
                    then c\<lparr>RateLimit := file_RateLimit fileConfig\<rparr> else c);
               c = (if MaxOrderSize (file_OrderSplitting fileConfig) > 0
                    then c\<lparr>OrderSplitting := file_OrderSplitting fileConfig\<rparr> else c)
           in Inr c))"

text \<open>\<^verbatim>\<open>LoadConfig\<close>, the part that fills \<^verbatim>\<open>cfg.Broker\<close>.\<close>

definition LoadConfig :: "(string \<rightharpoonup> string) \<Rightarrow> (string \<Rightarrow> file_read) \<Rightarrow> string + BrokerConfig" where
  "LoadConfig env fs =
     (let maxOrderSize = fst (Atoi (getEnv env ''MAX_ORDER_SIZE'' ''1000''));
          cfg = \<lparr>ConfigPath = getEnv env ''BROKER_CONFIG_PATH'' ''./config/broker-config.json'',
                 Type = getEnv env ''BROKER_TYPE'' ''mock'',
                 APIKey = getEnv env ''BROKER_API_KEY'' [],
                 APISecret = getEnv env ''BROKER_API_SECRET'' [],
                 BaseURL = getEnv env ''BROKER_BASE_URL'' [],
                 RateLimit = \<lparr>RequestsPerSecond = fst (Atoi (getEnv env ''BROKER_RATE_LIMIT_RPS'' ''10'')),
                              BurstSize = fst (Atoi (getEnv env ''BROKER_RATE_LIMIT_BURST'' ''20''))\<rparr>,
                 OrderSplitting = \<lparr>MaxOrderSize = (if maxOrderSize \<le> 0 then 1000 else maxOrderSize),
                                   Enabled = (getEnv env ''ORDER_SPLITTING_ENABLED'' ''true'' = ''true'')\<rparr>\<rparr>
      in if ConfigPath cfg \<noteq> []
         then (case loadBrokerConfigFromFile fs cfg of
                 Inl err \<Rightarrow> Inl (''failed to load broker config: '' @ err)
               | Inr c \<Rightarrow> Inr c)
         else Inr cfg)"

section \<open>broker/kite.go: the placement requests\<close>

record KiteBroker =
  apiKey :: string
  accessToken :: string
  baseURL :: string

definition NewKiteBroker :: "BrokerConfig \<Rightarrow> string + KiteBroker" where
  "NewKiteBroker cfg =
     (if APIKey cfg = [] then Inl ''Kite API key is required''
      else if APISecret cfg = [] then Inl ''Kite access token is required (set as api_secret in config)''
      else let baseURL = (if BaseURL cfg = [] then ''https://kite.zerodha.com'' else BaseURL cfg)
           in Inr \<lparr>apiKey = APIKey cfg, accessToken = APISecret cfg, baseURL = baseURL\<rparr>)"

record KiteOrderRequest =
  req_Exchange :: string
  Tradingsymbol :: string
  TransactionType :: string
  req_OrderType :: string
  Variety :: string
  req_Quantity :: int
  req_Price :: float64
  Product :: string
  Validity :: string

text \<open>
  An HTTP request as \<^verbatim>\<open>http.NewRequestWithContext\<close> and \<^verbatim>\<open>Header.Set\<close> build it: the
  method, the URL, the form fields of the body and the headers. \<^verbatim>\<open>url.Values.Set\<close>
  replaces the value of a key.
\<close>

record http_request =
  Method :: string
  URL :: string
  Form :: "(string \<times> string) list"
  Header :: "(string \<times> string) list"

definition Values_Set :: "string \<Rightarrow> string \<Rightarrow> (string \<times> string) list \<Rightarrow> (string \<times> string) list" where
  "Values_Set k v form = filter (\<lambda>e. fst e \<noteq> k) form @ [(k, v)]"

definition getAccessToken :: "KiteBroker \<Rightarrow> string + string" where
  "getAccessToken k = (if accessToken k = [] then Inl ''access token not configured'' else Inr (accessToken k))"

definition kite_headers :: "KiteBroker \<Rightarrow> string \<Rightarrow> (string \<times> string) list" where
  "kite_headers k token =
     Values_Set ''Authorization'' (''token '' @ apiKey k @ '':'' @ token)
       (Values_Set ''X-Kite-Version'' ''3''
         (Values_Set ''Content-Type'' ''application/x-www-form-urlencoded'' []))"

text \<open>
  \<^verbatim>\<open>placeAMOOrder\<close> up to \<^verbatim>\<open>httpClient.Do\<close>: the request that is sent, or the error
  that prevents it. \<open>fmt_2f\<close> is \<^verbatim>\<open>fmt.Sprintf("%.2f", _)\<close>.
\<close>

definition placeAMOOrder :: "(float64 \<Rightarrow> string) \<Rightarrow> KiteBroker \<Rightarrow> KiteOrderRequest \<Rightarrow> string + http_request" where
  "placeAMOOrder fmt_2f k orderReq =
     (let amoURL = ''https://api.kite.trade/orders/amo'';
          orderReq = orderReq\<lparr>Validity := ''DAY''\<rparr>;
          formData = Values_Set ''exchange'' (req_Exchange orderReq) [];
          formData = Values_Set ''tradingsymbol'' (Tradingsymbol orderReq) formData;
          formData = Values_Set ''transaction_type'' (TransactionType orderReq) formData;
          formData = Values_Set ''order_type'' (req_OrderType orderReq) formData;
          formData = Values_Set ''variety'' ''amo'' formData;
          formData = Values_Set ''quantity'' (fmt_d (req_Quantity orderReq)) formData;
          formData = Values_Set ''product'' (Product orderReq) formData;
          formData = Values_Set ''validity'' (Validity orderReq) formData;
          formData = (if req_OrderType orderReq = ''LIMIT'' \<and> float_gt0 (req_Price orderReq)
                      then Values_Set ''price'' (fmt_2f (req_Price orderReq)) formData else formData)
      in case getAccessToken k of
           Inl err \<Rightarrow> Inl (''failed to get access token: '' @ err)
         | Inr token \<Rightarrow>
             Inr \<lparr>Method = ''POST'', URL = amoURL, Form = formData, Header = kite_headers k token\<rparr>)"

definition placeOrder :: "(float64 \<Rightarrow> string) \<Rightarrow> KiteBroker \<Rightarrow> KiteOrderRequest \<Rightarrow> string + http_request" where
  "placeOrder fmt_2f k orderReq =
     (if Variety orderReq = ''amo'' then placeAMOOrder fmt_2f k orderReq
      else let apiURL = ''https://api.kite.trade/orders/regular'';
               formData = Values_Set ''exchange'' (req_Exchange orderReq) [];
               formData = Values_Set ''tradingsymbol'' (Tradingsymbol orderReq) formData;
               formData = Values_Set ''transaction_type'' (TransactionType orderReq) formData;
               formData = Values_Set ''order_type'' (req_OrderType orderReq) formData;
               formData = (if Variety orderReq \<noteq> [] \<and> Variety orderReq \<noteq> ''amo''
                           then Values_Set ''variety'' (Variety orderReq) formData
                           else Values_Set ''variety'' ''regular'' formData);
               formData = Values_Set ''quantity'' (fmt_d (req_Quantity orderReq)) formData;
               formData = Values_Set ''product'' (Product orderReq) formData;
               formData = Values_Set ''validity'' (Validity orderReq) formData;
               formData = (if req_OrderType orderReq = ''LIMIT'' \<and> float_gt0 (req_Price orderReq)
                           then Values_Set ''price'' (fmt_2f (req_Price orderReq)) formData else formData)
           in case getAccessToken k of
                Inl err \<Rightarrow> Inl (''failed to get access token: '' @ err)
              | Inr token \<Rightarrow>
                  Inr \<lparr>Method = ''POST'', URL = apiURL, Form = formData, Header = kite_headers k token\<rparr>)"

text \<open>\<^verbatim>\<open>parseSymbol\<close>: \<^verbatim>\<open>EXCHANGE:SYMBOL\<close>, or a bare symbol on the NSE.\<close>

fun split_colon :: "string \<Rightarrow> string list" where
  "split_colon [] = [[]]"
| "split_colon (c # cs) =
     (if c = CHR '':'' then [] # split_colon cs
      else (case split_colon cs of p # ps \<Rightarrow> (c # p) # ps | [] \<Rightarrow> [[c]]))"

definition parseSymbol :: "string \<Rightarrow> string \<times> string" where
  "parseSymbol symbol =
     (let parts = split_colon symbol
      in if length parts = 2 then (ToUpper (parts ! 0), ToUpper (parts ! 1))
         else (''NSE'', ToUpper symbol))"

text \<open>
  \<^verbatim>\<open>KiteBroker.ExecuteOrder\<close> up to the HTTP call: the request built from the order and
  the function it is handed to.
\<close>

definition kite_order_request :: "Order \<Rightarrow> KiteOrderRequest" where
  "kite_order_request order =
     (let useAMO = IsAMO order;
          (exchange, tradingsymbol) =
             (if Exchange order \<noteq> [] then (Exchange order, ToUpper (Symbol order))
              else parseSymbol (Symbol order));
          transactionType = (if ToUpper (Side order) = ''SELL'' then ''SELL'' else ''BUY'');
          orderType = (if ToUpper (OrderType order) = ''LIMIT'' then ''LIMIT'' else ''MARKET'')
      in \<lparr>req_Exchange = exchange, Tradingsymbol = tradingsymbol,
          TransactionType = transactionType, req_OrderType = orderType,
          Variety = (if useAMO then ''amo'' else ''regular''),
          req_Quantity = Quantity order,
          req_Price = (if orderType = ''LIMIT'' then Price order else Num 0),
          Product = ''CNC'', Validity = ''DAY''\<rparr>)"

definition KiteBroker_ExecuteOrder :: "(float64 \<Rightarrow> string) \<Rightarrow> KiteBroker \<Rightarrow> Order \<Rightarrow> string + http_request" where
  "KiteBroker_ExecuteOrder fmt_2f k order =
     (let useAMO = IsAMO order; kiteOrder = kite_order_request order
      in if useAMO then placeAMOOrder fmt_2f k kiteOrder else placeOrder fmt_2f k kiteOrder)"

section \<open>Store invariants and a sample order\<close>

text \<open>
  The due index and the records agree when every record \<^verbatim>\<open>order:{m}\<close> holds an order whose
  id is \<open>m\<close> and every index entry of \<open>m\<close> carries the Unix second of that order's
  scheduled time. \<^verbatim>\<open>StoreOrder\<close> writes both from the same order.
\<close>

definition store_consistent :: "redis \<Rightarrow> bool" where
  "store_consistent s =
     (\<forall>m e ttl. strings s (order_key m) = Some (Json e, ttl) \<longrightarrow>
        ID (entry_Order e) = m \<and>
        (\<forall>sc. (m, sc) \<in> set (pending_orders s) \<longrightarrow> sc = Unix (ScheduledTime (entry_Order e))))"

text \<open>
  The weaker half of that agreement, which no command of the cache breaks, whether it
  succeeds or fails: every record \<^verbatim>\<open>order:{m}\<close> holds an order whose id is \<open>m\<close>.
\<close>

definition records_keyed :: "redis \<Rightarrow> bool" where
  "records_keyed s =
     (\<forall>m e ttl. strings s (order_key m) = Some (Json e, ttl) \<longrightarrow> ID (entry_Order e) = m)"

text \<open>\<open>order_shrinks s' s\<close>: every order record of \<open>s'\<close> is one of \<open>s\<close>, unchanged.\<close>

definition order_shrinks :: "redis \<Rightarrow> redis \<Rightarrow> bool" where
  "order_shrinks s' s =
     (\<forall>k. strings s' (order_key k) = None \<or> strings s' (order_key k) = strings s (order_key k))"

text \<open>
  What can happen to the store after a dispatch attempt: any call of the cache, an attempt
  on another or the same order, a whole dispatch run, a run of the ingester, and the server
  dropping a key whose time-to-live has run out. \<open>stores_id m\<close> singles out the inserts of
  an order with id \<open>m\<close> and the ingester runs that parse an order with id \<open>m\<close>.
\<close>

datatype store_op =
    OpStore bool int instant instant Order instant
  | OpRemove string
  | OpDue instant
  | OpTryLock string duration
  | OpReleaseLock string
  | OpExecute environment Order
  | OpRun environment instant
  | OpIngest "instant \<Rightarrow> string" bool int instant instant "Order \<Rightarrow> instant \<times> instant"
      "(ParsedRow \<times> instant) list option" "(ParsedRow \<times> instant) list option"
  | OpExpire string

fun apply_op :: "store_op \<Rightarrow> redis \<Rightarrow> redis" where
  "apply_op (OpStore tz_ok local createdAt now order expiryTime) s =
     snd (StoreOrder tz_ok local createdAt now order expiryTime s)"
| "apply_op (OpRemove orderID) s = snd (RemoveOrder orderID s)"
| "apply_op (OpDue now) s = snd (GetOrdersDueForExecution now s)"
| "apply_op (OpTryLock orderID ttl) s = snd (TryLock orderID ttl s)"
| "apply_op (OpReleaseLock orderID) s = snd (ReleaseLock orderID s)"
| "apply_op (OpExecute env order) s = snd (executeOrder env order s)"
| "apply_op (OpRun env now) s = snd (snd (ExecuteDueOrders env now s))"
| "apply_op (OpIngest rfc3339 tz_ok local nowBuy nowSell clock buy sell) s =
     readAndCacheOrders rfc3339 tz_ok local nowBuy nowSell clock buy sell s"
| "apply_op (OpExpire key) s = s\<lparr>strings := (strings s)(key := None)\<rparr>"

fun run_ops :: "store_op list \<Rightarrow> redis \<Rightarrow> redis" where
  "run_ops [] s = s"
| "run_ops (a # ops) s = run_ops ops (apply_op a s)"

fun stores_id :: "string \<Rightarrow> store_op \<Rightarrow> bool" where
  "stores_id m (OpStore tz_ok local createdAt now order expiryTime) = (ID order = m)"
| "stores_id m (OpIngest rfc3339 tz_ok local nowBuy nowSell clock buy sell) =
     (m \<in> ID ` set
        ((case buy of None \<Rightarrow> [] | Some rows \<Rightarrow> parseRows rfc3339 tz_ok ''Buy'' nowBuy rows [])
         @ (case sell of None \<Rightarrow> [] | Some rows \<Rightarrow> parseRows rfc3339 tz_ok ''Sell'' nowSell rows [])))"
| "stores_id m a = False"

text \<open>\<open>shrinks s' s\<close>: every key and every index entry of \<open>s'\<close> is one of \<open>s\<close>, unchanged.\<close>

definition shrinks :: "redis \<Rightarrow> redis \<Rightarrow> bool" where
  "shrinks s' s =
     ((\<forall>k v. strings s' k = Some v \<longrightarrow> strings s k = Some v) \<and>
      set (pending_orders s') \<subseteq> set (pending_orders s))"

text \<open>
  The order of the first scenario of the specification: XYZ, scheduled on Monday
  2025-03-10 at 09:30:00 IST, and the store that holds it alone, written ten seconds
  before that.
\<close>

definition xyz_order :: Order where
  "xyz_order = \<lparr>ID = ''XYZ:2025-03-10T09:30:00+05:30'', Symbol = ''XYZ'', Exchange = ''NSE'',
                 Price = Num 100, Quantity = 5, OrderType = ''LIMIT'', Side = ''Buy'',
                 ScheduledTime = 1741579200 * Second, CreatedAt = 1741579190 * Second,
                 IsAMO = False\<rparr>"

definition xyz_store :: redis where
  "xyz_store = snd (StoreOrder True 0 (1741579190 * Second) (1741579190 * Second) xyz_order
                      (Add (ScheduledTime xyz_order) (10 * Second)) empty_redis)"

section \<open>Properties\<close>

subsection \<open>Lot splitting\<close>

lemma lots_loop_upto:
  "lots_loop body lots k orders = orders @ map body [k..lots]"
proof (induction body lots k orders rule: lots_loop.induct)
  case (1 body lots orderNum orders)
  show ?case
  proof (cases "orderNum \<le> lots")
    case True
    then have "[orderNum..lots] = orderNum # [orderNum + 1..lots]"
      by (simp add: upto_rec1)
    with True 1 show ?thesis
      by (simp add: lots_loop.simps [of body lots orderNum])
  next
    case False
    then show ?thesis
      by (simp add: lots_loop.simps [of body lots orderNum])
  qed
qed







lemma Quantity_lot_order [simp]:
  "Quantity (lot_order f smb exch p sd st now amo lots b r k) = (if k \<le> r then b + 1 else b)"
  by (simp add: lot_order_def Let_def)

lemma ID_lot_order [simp]:
  "ID (lot_order f smb exch p sd st now amo lots b r k) =
     (if lots > 1 then GenerateOrderID f smb st @ ''-'' @ fmt_d k else GenerateOrderID f smb st)"
  by (simp add: lot_order_def Let_def)

lemma IsAMO_lot_order [simp]:
  "IsAMO (lot_order f smb exch p sd st now amo lots b r k) = amo"
  by (simp add: lot_order_def Let_def)


lemma parse_row_past:
  "Before (row_scheduledTime row) nowIST \<Longrightarrow> parse_row f tz_ok side now nowIST row orders = orders"
  by (simp add: parse_row_def Let_def)



subsection \<open>The AMO stamp\<close>

lemma parse_row_amo:
  assumes "\<forall>x \<in> set orders. IsAMO x = shouldUseAMO tz_ok (ScheduledTime x)"
  shows "\<forall>x \<in> set (parse_row f tz_ok side now nowIST row orders).
           IsAMO x = shouldUseAMO tz_ok (ScheduledTime x)"
  using assms by (auto simp: parse_row_def Let_def lots_loop_upto lot_order_def)

lemma parseRows_amo:
  assumes "\<forall>x \<in> set orders. IsAMO x = shouldUseAMO tz_ok (ScheduledTime x)"
  shows "\<forall>x \<in> set (parseRows f tz_ok side now rows orders).
           IsAMO x = shouldUseAMO tz_ok (ScheduledTime x)"
  using assms
proof (induction rows arbitrary: orders)
  case Nil
  then show ?case by simp
next
  case (Cons r rows)
  obtain row nowIST where r: "r = (row, nowIST)" by (cases r)
  show ?case
    unfolding r parseRows.simps
    by (rule Cons.IH) (rule parse_row_amo [OF Cons.prems])
qed

lemma shouldUseAMO_weekday:
  assumes "Weekday tz_ok t \<noteq> Saturday" "Weekday tz_ok t \<noteq> Sunday"
  shows "shouldUseAMO tz_ok t = ShouldUseAMO NewMarketHours tz_ok t"
  using assms
  by (auto simp: shouldUseAMO_def ShouldUseAMO_def IsMarketOpen_def NewMarketHours_def Let_def)

text \<open>
  Claim C3, as amended. Every order the reader produces carries \<open>IsAMO\<close> true exactly
  when the minute of the day of its scheduled instant, in the market time zone, is before
  09:00 or at or after 15:30, whatever the day of the week. On a Monday to Friday this is
  the market clock's verdict "not open". (On a Saturday or Sunday inside those hours the
  stamp is false although the market clock says closed: see the counterexample.)
\<close>

theorem reader_amo_stamp:
  assumes "x \<in> set (parseRows f tz_ok side now rows [])"
  shows "IsAMO x = (Hour tz_ok (ScheduledTime x) * 60 + Minute tz_ok (ScheduledTime x) < 540
                     \<or> Hour tz_ok (ScheduledTime x) * 60 + Minute tz_ok (ScheduledTime x) \<ge> 930)
       \<and> (Weekday tz_ok (ScheduledTime x) \<noteq> Saturday \<and> Weekday tz_ok (ScheduledTime x) \<noteq> Sunday
            \<longrightarrow> IsAMO x = (\<not> IsMarketOpen NewMarketHours tz_ok (ScheduledTime x)))"
proof -
  have a: "IsAMO x = shouldUseAMO tz_ok (ScheduledTime x)"
    using parseRows_amo [of "[]" tz_ok f side now rows] assms by simp
  show ?thesis
    using shouldUseAMO_weekday [of tz_ok "ScheduledTime x"]
    by (auto simp: a shouldUseAMO_def ShouldUseAMO_def Let_def)
qed

theorem reader_amo_stamp_witness:
  "IsAMO (hd (parseRows (\<lambda>t. ''2025-03-10T18:00:00+05:30'') True ''Buy'' 0
        [(\<lparr>row_price = Num 100, row_symbol = ''XYZ'', row_scheduledTime = 1741609800 * Second,
           row_lots = Some 1, row_totalQuantity = 5, row_exchange = ''NSE''\<rparr>, 0)] []))
   \<and> \<not> IsMarketOpen NewMarketHours True (1741609800 * Second)"
proof -
  let ?rows = "[(\<lparr>row_price = Num 100, row_symbol = ''XYZ'', row_scheduledTime = 1741609800 * Second,
           row_lots = Some 1, row_totalQuantity = 5, row_exchange = ''NSE''\<rparr>, 0::int)]"
  let ?os = "parseRows (\<lambda>t. ''2025-03-10T18:00:00+05:30'') True ''Buy'' 0 ?rows []"
  have os: "?os = [\<lparr>ID = ''XYZ:2025-03-10T18:00:00+05:30'', Symbol = ''XYZ'', Exchange = ''NSE'',
        Price = Num 100, Quantity = 5, OrderType = ''LIMIT'', Side = ''Buy'',
        ScheduledTime = 1741609800 * Second, CreatedAt = 0, IsAMO = True\<rparr>]"
    by (simp add: parse_row_def Let_def lots_loop_upto lot_order_def Before_def Second_def
        GenerateOrderID_def ToUpper_def upper_char_def shouldUseAMO_def Hour_def Minute_def
        local_seconds_def location_offset_def Unix_def)
  have m: "hd ?os \<in> set ?os"
    unfolding os by simp
  have w: "Weekday True (1741609800 * Second) \<noteq> Saturday \<and> Weekday True (1741609800 * Second) \<noteq> Sunday"
    by (simp add: Weekday_def local_seconds_def location_offset_def Unix_def Second_def
        Saturday_def Sunday_def)
  from reader_amo_stamp [OF m, unfolded os] w show ?thesis
    unfolding os by simp
qed

theorem reader_amo_weekend_counterexample:
  "map IsAMO (parseRows (\<lambda>t. ''2025-03-15T10:00:00+05:30'') True ''Buy'' 0
        [(\<lparr>row_price = Num 100, row_symbol = ''XYZ'', row_scheduledTime = 1742013000 * Second,
           row_lots = Some 1, row_totalQuantity = 5, row_exchange = ''NSE''\<rparr>, 0)] []) = [False]
   \<and> Weekday True (1742013000 * Second) = Saturday
   \<and> \<not> IsMarketOpen NewMarketHours True (1742013000 * Second)"
  by (simp add: parse_row_def Let_def lots_loop_upto lot_order_def Before_def Second_def
        GenerateOrderID_def ToUpper_def upper_char_def shouldUseAMO_def Hour_def Minute_def
        local_seconds_def location_offset_def Unix_def IsMarketOpen_def Weekday_def
        Saturday_def Sunday_def)

subsection \<open>Precedence of the broker options\<close>

text \<open>
  Claim C8. The claim gives the environment precedence over the broker file. The code
  applies the file after the environment: with \<^verbatim>\<open>BROKER_TYPE=kite\<close> in the environment
  and \<^verbatim>\<open>"type": "mock"\<close> in the file, the loaded type is \<^verbatim>\<open>mock\<close>.
\<close>

theorem file_overrides_environment:
  "map_sum id Type
     (LoadConfig [''BROKER_TYPE'' \<mapsto> ''kite'']
        (\<lambda>path. Parsed \<lparr>file_Type = ''mock'', file_APIKey = [], file_APISecret = [],
                         file_BaseURL = [],
                         file_RateLimit = \<lparr>RequestsPerSecond = 0, BurstSize = 0\<rparr>,
                         file_OrderSplitting = \<lparr>MaxOrderSize = 0, Enabled = False\<rparr>\<rparr>))
   = Inr ''mock''
   \<and> getEnv [''BROKER_TYPE'' \<mapsto> ''kite''] ''BROKER_TYPE'' ''mock'' = ''kite''"
  by (simp add: LoadConfig_def loadBrokerConfigFromFile_def getEnv_def Getenv_def Let_def)

subsection \<open>The placement endpoints\<close>

lemma placeAMOOrder_url:
  "accessToken k \<noteq> [] \<Longrightarrow>
     \<exists>req. placeAMOOrder fmt k r = Inr req \<and> Method req = ''POST''
        \<and> URL req = ''https://api.kite.trade/orders/amo''"
  by (simp add: placeAMOOrder_def getAccessToken_def Let_def)

lemma placeOrder_url:
  "accessToken k \<noteq> [] \<Longrightarrow>
     \<exists>req. placeOrder fmt k r = Inr req \<and> Method req = ''POST''
        \<and> URL req = (if Variety r = ''amo'' then ''https://api.kite.trade/orders/amo''
                      else ''https://api.kite.trade/orders/regular'')"
  by (simp add: placeOrder_def placeAMOOrder_def getAccessToken_def Let_def)

text \<open>
  Claim C9, as amended. Whatever base URL the adapter is configured with, a placement is a
  POST to \<^verbatim>\<open>https://api.kite.trade/orders/regular\<close> for a regular order and to
  \<^verbatim>\<open>https://api.kite.trade/orders/amo\<close> for an AMO (given an access token, without which
  nothing is sent).
\<close>

theorem placement_url_fixed:
  assumes "accessToken k \<noteq> []"
  shows "\<exists>req. KiteBroker_ExecuteOrder fmt k order = Inr req \<and> Method req = ''POST''
           \<and> URL req = (if IsAMO order then ''https://api.kite.trade/orders/amo''
                         else ''https://api.kite.trade/orders/regular'')"
proof (cases "IsAMO order")
  case True
  with placeAMOOrder_url [OF assms] show ?thesis
    by (simp add: KiteBroker_ExecuteOrder_def Let_def)
next
  case False
  then have "Variety (kite_order_request order) \<noteq> ''amo''"
    by (simp add: kite_order_request_def Let_def split: prod.splits)
  with False placeOrder_url [OF assms, of fmt "kite_order_request order"] show ?thesis
    by (simp add: KiteBroker_ExecuteOrder_def Let_def)
qed

theorem placement_url_fixed_witness:
  "map_sum id URL (KiteBroker_ExecuteOrder (\<lambda>p. ''100.00'')
       \<lparr>apiKey = ''key'', accessToken = ''token'', baseURL = ''https://sandbox.test''\<rparr> xyz_order)
     = Inr ''https://api.kite.trade/orders/regular''"
proof -
  have h: "accessToken \<lparr>apiKey = ''key'', accessToken = ''token'', baseURL = ''https://sandbox.test''\<rparr> \<noteq> []"
    by simp
  from placement_url_fixed [OF h, of "\<lambda>p. ''100.00''" xyz_order]
  show ?thesis
    by (auto simp: xyz_order_def)
qed

theorem base_url_ignored_counterexample:
  "map_sum id URL (KiteBroker_ExecuteOrder (\<lambda>p. ''100.00'')
       \<lparr>apiKey = ''key'', accessToken = ''token'', baseURL = ''https://sandbox.test''\<rparr> xyz_order)
     \<noteq> Inr (baseURL \<lparr>apiKey = ''key'', accessToken = ''token'', baseURL = ''https://sandbox.test''\<rparr>
              @ ''/orders/regular'')
   \<and> map_sum id URL (KiteBroker_ExecuteOrder (\<lambda>p. ''100.00'')
       \<lparr>apiKey = ''key'', accessToken = ''token'', baseURL = ''https://sandbox.test''\<rparr>
       (xyz_order\<lparr>IsAMO := True\<rparr>))
     \<noteq> Inr (baseURL \<lparr>apiKey = ''key'', accessToken = ''token'', baseURL = ''https://sandbox.test''\<rparr>
              @ ''/orders/amo'')"
  by (simp add: KiteBroker_ExecuteOrder_def kite_order_request_def placeOrder_def
        placeAMOOrder_def getAccessToken_def Let_def xyz_order_def ToUpper_def upper_char_def)

subsection \<open>The commands\<close>

lemma next_fault_snd [simp]:
  "strings (snd (next_fault s)) = strings s"
  "pending_orders (snd (next_fault s)) = pending_orders s"
  "faults (snd (next_fault s)) = tl (faults s)"
  by (simp_all add: next_fault_def split: list.splits)

lemma next_fault_none: "faults s = [] \<Longrightarrow> next_fault s = (False, s)"
  by (simp add: next_fault_def)

lemma redis_Get_alt:
  "redis_Get k s =
     (if fst (next_fault s) then (Inl ConnError, snd (next_fault s))
      else case strings s k of None \<Rightarrow> (Inl RedisNil, snd (next_fault s))
           | Some (v, ttl) \<Rightarrow> (Inr v, snd (next_fault s)))"
  by (auto simp: redis_Get_def next_fault_def split: list.splits option.splits)

lemma redis_Del_alt:
  "redis_Del k s =
     (if fst (next_fault s) then (Inl ConnError, snd (next_fault s))
      else (Inr (), (snd (next_fault s))\<lparr>strings := (strings s)(k := None)\<rparr>))"
  by (auto simp: redis_Del_def next_fault_def split: list.splits option.splits)

lemma redis_Set_alt:
  "redis_Set k v ttl s =
     (if fst (next_fault s) then (Inl ConnError, snd (next_fault s))
      else (Inr (), (snd (next_fault s))\<lparr>strings := (strings s)(k \<mapsto> (v, ttl))\<rparr>))"
  by (auto simp: redis_Set_def next_fault_def split: list.splits option.splits)

lemma redis_SetNX_alt:
  "redis_SetNX k v ttl s =
     (if fst (next_fault s) then (Inl ConnError, snd (next_fault s))
      else if strings s k = None
           then (Inr True, (snd (next_fault s))\<lparr>strings := (strings s)(k \<mapsto> (v, ttl))\<rparr>)
           else (Inr False, snd (next_fault s)))"
  by (auto simp: redis_SetNX_def next_fault_def split: list.splits option.splits)

lemma redis_ZAdd_alt:
  "redis_ZAdd m sc s =
     (if fst (next_fault s) then (Inl ConnError, snd (next_fault s))
      else (Inr (), (snd (next_fault s))\<lparr>pending_orders :=
               filter (\<lambda>e. fst e \<noteq> m) (pending_orders s) @ [(m, sc)]\<rparr>))"
  by (auto simp: redis_ZAdd_def next_fault_def split: list.splits option.splits)

lemma redis_ZRem_alt:
  "redis_ZRem m s =
     (if fst (next_fault s) then (Inl ConnError, snd (next_fault s))
      else (Inr (), (snd (next_fault s))\<lparr>pending_orders :=
               filter (\<lambda>e. fst e \<noteq> m) (pending_orders s)\<rparr>))"
  by (auto simp: redis_ZRem_def next_fault_def split: list.splits option.splits)

lemma redis_ZRangeByScore_alt:
  "redis_ZRangeByScore lo hi s =
     (if fst (next_fault s) then (Inl ConnError, snd (next_fault s))
      else (Inr (map fst (sort_key snd (sort_key fst
                  (filter (\<lambda>e. lo \<le> snd e \<and> snd e \<le> hi) (pending_orders s))))),
            snd (next_fault s)))"
  by (auto simp: redis_ZRangeByScore_def next_fault_def split: list.splits option.splits)

lemma RemoveOrder_alt:
  "RemoveOrder m s =
     (if fst (next_fault s) then (Inl RemoveFailed, snd (next_fault s))
      else if fst (next_fault (snd (next_fault s)))
           then (Inl RemovePendingFailed,
                 (snd (next_fault (snd (next_fault s))))\<lparr>strings := (strings s)(order_key m := None)\<rparr>)
           else (Inr (),
                 (snd (next_fault (snd (next_fault s))))
                   \<lparr>strings := (strings s)(order_key m := None),
                    pending_orders := filter (\<lambda>e. fst e \<noteq> m) (pending_orders s)\<rparr>))"
  by (simp add: RemoveOrder_def redis_Del_alt redis_ZRem_alt next_fault_def Let_def split: list.splits)


lemma order_key_inj [simp]: "(order_key a = order_key b) = (a = b)"
  by (simp add: order_key_def)

lemma lock_key_inj [simp]: "(lock_key a = lock_key b) = (a = b)"
  by (simp add: lock_key_def)

lemma lock_key_order_key [simp]: "lock_key a \<noteq> order_key b" "order_key b \<noteq> lock_key a"
  by (simp_all add: lock_key_def order_key_def)

lemma FromJSON_Some [simp]: "(FromJSON v = Some e) = (v = Json e)"
  by (cases v) auto

lemma FromJSON_None [simp]: "(FromJSON v = None) = (\<exists>t. v = Raw t)"
  by (cases v) auto

subsection \<open>Only removals\<close>

lemma shrinks_refl [simp]: "shrinks s s"
  by (simp add: shrinks_def)

lemma shrinks_trans: "shrinks s2 s1 \<Longrightarrow> shrinks s1 s0 \<Longrightarrow> shrinks s2 s0"
  by (auto simp: shrinks_def)

lemma shrinks_RemoveOrder: "shrinks (snd (RemoveOrder m s)) s"
  by (auto simp: shrinks_def RemoveOrder_alt split: if_splits)

lemma due_step_shrinks: "shrinks (snd (due_step now m orders s)) s"
  by (auto simp: due_step_def Let_def redis_Get_alt redis_ZRem_alt RemoveOrder_alt shrinks_def
      split: option.splits if_splits)

lemma due_loop_shrinks: "shrinks (snd (due_loop now ids orders s)) s"
proof (induction ids arbitrary: orders s)
  case Nil
  then show ?case by simp
next
  case (Cons m ids)
  obtain orders1 s1 where st: "due_step now m orders s = (orders1, s1)"
    by (cases "due_step now m orders s")
  have "shrinks s1 s"
    using due_step_shrinks [of now m orders s] by (simp add: st)
  with Cons.IH [of orders1 s1] show ?case
    by (auto simp: st intro: shrinks_trans)
qed

subsection \<open>What the due query returns\<close>

lemma due_step_result:
  assumes "due_step now m orders s = (orders1, s1)"
  shows "orders1 = orders \<or>
     (\<exists>e ttl. orders1 = orders @ [entry_Order e] \<and> strings s (order_key m) = Some (Json e, ttl)
        \<and> \<not> After now (ExpiryTime e))"
  using assms
  by (auto simp: due_step_def Let_def redis_Get_alt split: option.splits if_splits)

lemma due_loop_result:
  assumes "x \<in> set (fst (due_loop now ids orders s))"
  shows "x \<in> set orders \<or>
     (\<exists>m \<in> set ids. \<exists>e ttl. strings s (order_key m) = Some (Json e, ttl) \<and> entry_Order e = x
        \<and> \<not> After now (ExpiryTime e))"
  using assms
proof (induction ids arbitrary: orders s)
  case Nil
  then show ?case by simp
next
  case (Cons m ids)
  obtain orders1 s1 where st: "due_step now m orders s = (orders1, s1)"
    by (cases "due_step now m orders s")
  have sh: "shrinks s1 s"
    using due_step_shrinks [of now m orders s] by (simp add: st)
  from Cons.prems have "x \<in> set (fst (due_loop now ids orders1 s1))"
    by (simp add: st)
  from Cons.IH [OF this] consider
      (old) "x \<in> set orders1"
    | (new) m' e ttl where "m' \<in> set ids" "strings s1 (order_key m') = Some (Json e, ttl)"
        "entry_Order e = x" "\<not> After now (ExpiryTime e)"
    by blast
  then show ?case
  proof cases
    case old
    with due_step_result [OF st] show ?thesis
      by auto
  next
    case new
    with sh have "strings s (order_key m') = Some (Json e, ttl)"
      by (simp add: shrinks_def)
    with new show ?thesis
      by (intro disjI2) (auto intro!: bexI [of _ m'])
  qed
qed

lemma due_orders_sound:
  assumes "GetOrdersDueForExecution now s = (Inr orders, s')" "x \<in> set orders"
  shows "\<exists>m sc e ttl. (m, sc) \<in> set (pending_orders s) \<and> 0 \<le> sc \<and> sc \<le> Unix now
      \<and> strings s (order_key m) = Some (Json e, ttl) \<and> entry_Order e = x
      \<and> \<not> After now (ExpiryTime e)"
proof -
  let ?ids = "map fst (sort_key snd (sort_key fst
      (filter (\<lambda>e. 0 \<le> snd e \<and> snd e \<le> Unix now) (pending_orders s))))"
  from assms(1) have nf: "\<not> fst (next_fault s)"
    and os: "orders = fst (due_loop now ?ids [] (snd (next_fault s)))"
    by (auto simp: GetOrdersDueForExecution_def Let_def redis_ZRangeByScore_alt
        split: if_splits prod.splits)
  from due_loop_result [of x now ?ids "[]" "snd (next_fault s)"] assms(2) os
  obtain m e ttl where m: "m \<in> set ?ids" "strings s (order_key m) = Some (Json e, ttl)"
      "entry_Order e = x" "\<not> After now (ExpiryTime e)"
    by (auto simp del: set_map set_filter set_sort)
  from m(1) have "m \<in> fst ` {e \<in> set (pending_orders s). 0 \<le> snd e \<and> snd e \<le> Unix now}"
    by simp
  then obtain sc where "(m, sc) \<in> set (pending_orders s)" "0 \<le> sc" "sc \<le> Unix now"
    by force
  with m show ?thesis
    by blast
qed


subsection \<open>Expired records are evicted in passing\<close>

lemma shrinks_gone:
  assumes "shrinks s' s"
  shows "strings s k = None \<Longrightarrow> strings s' k = None"
    and "m \<notin> fst ` set (pending_orders s) \<Longrightarrow> m \<notin> fst ` set (pending_orders s')"
  using assms by (cases "strings s' k"; auto simp: shrinks_def)+

lemma due_step_faults: "faults s = [] \<Longrightarrow> faults (snd (due_step now m orders s)) = []"
  by (auto simp: due_step_def Let_def redis_Get_alt redis_ZRem_alt RemoveOrder_alt next_fault_none
      split: option.splits)

lemma due_loop_faults: "faults s = [] \<Longrightarrow> faults (snd (due_loop now ids orders s)) = []"
proof (induction ids arbitrary: orders s)
  case Nil
  then show ?case by simp
next
  case (Cons m ids)
  obtain orders1 s1 where st: "due_step now m orders s = (orders1, s1)"
    by (cases "due_step now m orders s")
  have "faults s1 = []"
    using due_step_faults [OF Cons.prems, of now m orders] by (simp add: st)
  from Cons.IH [OF this] show ?case
    by (simp add: st)
qed

lemma due_step_evicts:
  assumes "faults s = []"
    and "strings s (order_key m) = None \<or>
         (\<exists>e ttl. strings s (order_key m) = Some (Json e, ttl) \<and> After now (ExpiryTime e)
            \<and> ID (entry_Order e) = m)"
  shows "strings (snd (due_step now m orders s)) (order_key m) = None
       \<and> m \<notin> fst ` set (pending_orders (snd (due_step now m orders s)))"
  using assms
  by (auto simp: due_step_def Let_def redis_Get_alt redis_ZRem_alt RemoveOrder_alt next_fault_none)

lemma due_loop_evicts:
  assumes "faults s = []" "shrinks s s0" "store_consistent s0" "m \<in> set ids"
    and "strings s0 (order_key m) = Some (Json e, ttl)" "After now (ExpiryTime e)"
  shows "strings (snd (due_loop now ids orders s)) (order_key m) = None
       \<and> m \<notin> fst ` set (pending_orders (snd (due_loop now ids orders s)))"
  using assms(1,2,4)
proof (induction ids arbitrary: orders s)
  case Nil
  then show ?case by simp
next
  case (Cons a ids)
  obtain orders1 s1 where st: "due_step now a orders s = (orders1, s1)"
    by (cases "due_step now a orders s")
  have f1: "faults s1 = []"
    using due_step_faults [OF Cons.prems(1), of now a orders] by (simp add: st)
  have sh1: "shrinks s1 s0"
    using due_step_shrinks [of now a orders s] Cons.prems(2) by (auto simp: st intro: shrinks_trans)
  show ?case
  proof (cases "a = m")
    case True
    have idm: "ID (entry_Order e) = m"
      using assms(3,5) by (auto simp: store_consistent_def)
    have "strings s (order_key m) = None \<or> strings s (order_key m) = Some (Json e, ttl)"
      using Cons.prems(2) assms(5) by (cases "strings s (order_key m)") (auto simp: shrinks_def)
    then have "strings s (order_key m) = None \<or>
         (\<exists>e ttl. strings s (order_key m) = Some (Json e, ttl) \<and> After now (ExpiryTime e)
            \<and> ID (entry_Order e) = m)"
      using assms(6) idm by blast
    moreover from True st have "due_step now m orders s = (orders1, s1)"
      by simp
    ultimately have gone: "strings s1 (order_key m) = None" "m \<notin> fst ` set (pending_orders s1)"
      using due_step_evicts [OF Cons.prems(1), of m now orders] by simp_all
    have "shrinks (snd (due_loop now ids orders1 s1)) s1"
      by (rule due_loop_shrinks)
    from shrinks_gone [OF this] gone show ?thesis
      by (simp add: st)
  next
    case False
    with Cons.prems(3) have "m \<in> set ids" by simp
    from Cons.IH [OF f1 sh1 this] show ?thesis
      by (simp add: st)
  qed
qed

lemma due_orders_evict:
  assumes "faults s = []" "store_consistent s"
    and "GetOrdersDueForExecution now s = (r, s')"
    and "(m, sc) \<in> set (pending_orders s)" "0 \<le> sc" "sc \<le> Unix now"
    and "strings s (order_key m) = Some (Json e, ttl)" "After now (ExpiryTime e)"
  shows "strings s' (order_key m) = None \<and> m \<notin> fst ` set (pending_orders s')"
proof -
  let ?ids = "map fst (sort_key snd (sort_key fst
      (filter (\<lambda>e. 0 \<le> snd e \<and> snd e \<le> Unix now) (pending_orders s))))"
  from assms(1,3) have s': "s' = snd (due_loop now ?ids [] s)"
    by (auto simp: GetOrdersDueForExecution_def Let_def redis_ZRangeByScore_alt next_fault_none
        split: prod.splits)
  have "m \<in> fst ` {e \<in> set (pending_orders s). 0 \<le> snd e \<and> snd e \<le> Unix now}"
    using assms(4,5,6) by force
  then have "m \<in> set ?ids"
    by simp
  from due_loop_evicts [OF assms(1) shrinks_refl assms(2) this assms(7,8), of "[]"]
  show ?thesis
    by (simp add: s')
qed

lemma Unix_whole_second:
  assumes "Unix t \<le> Unix now" "t mod Second = 0"
  shows "t \<le> now"
proof -
  have "t = Second * (t div Second)"
    using assms(2) mult_div_mod_eq [of Second t] by simp
  also have "\<dots> \<le> Second * (now div Second)"
    using assms(1) by (simp add: Unix_def Second_def)
  also have "\<dots> \<le> now"
    by (simp add: Second_def)
  finally show ?thesis .
qed

text \<open>
  Claim C5, as amended. In a store whose index agrees with its records, every order the
  due query returns has the Unix second of its scheduled time between 0 and that of
  \<open>now\<close> (so a scheduled time on a whole second, as the reader builds them, is at or
  before \<open>now\<close>), and its record has an expiry at or after \<open>now\<close>: the bound is
  inclusive. When the server answers every command, each record in range whose expiry is
  strictly before \<open>now\<close> is evicted, record and index entry.
\<close>

theorem due_orders_window:
  assumes "store_consistent s" and "GetOrdersDueForExecution now s = (Inr orders, s')"
  shows "(\<forall>x \<in> set orders.
            0 \<le> Unix (ScheduledTime x) \<and> Unix (ScheduledTime x) \<le> Unix now
          \<and> (ScheduledTime x mod Second = 0 \<longrightarrow> ScheduledTime x \<le> now)
          \<and> (\<exists>e ttl. strings s (order_key (ID x)) = Some (Json e, ttl) \<and> entry_Order e = x
                \<and> now \<le> ExpiryTime e))
       \<and> (faults s = [] \<longrightarrow>
            (\<forall>m sc e ttl. (m, sc) \<in> set (pending_orders s) \<and> 0 \<le> sc \<and> sc \<le> Unix now
                \<and> strings s (order_key m) = Some (Json e, ttl) \<and> ExpiryTime e < now
              \<longrightarrow> strings s' (order_key m) = None \<and> m \<notin> fst ` set (pending_orders s')))"
proof (intro conjI ballI impI allI)
  fix x
  assume "x \<in> set orders"
  from due_orders_sound [OF assms(2) this]
  obtain m sc e ttl where m: "(m, sc) \<in> set (pending_orders s)" "0 \<le> sc" "sc \<le> Unix now"
      "strings s (order_key m) = Some (Json e, ttl)" "entry_Order e = x"
      "\<not> After now (ExpiryTime e)"
    by blast
  from assms(1) m(1,4,5) have c: "ID x = m" "sc = Unix (ScheduledTime x)"
    by (auto simp: store_consistent_def)
  show u: "0 \<le> Unix (ScheduledTime x)" "Unix (ScheduledTime x) \<le> Unix now"
    using m(2,3) c by simp_all
  show "ScheduledTime x \<le> now" if "ScheduledTime x mod Second = 0"
    using u(2) that by (rule Unix_whole_second)
  show "\<exists>e ttl. strings s (order_key (ID x)) = Some (Json e, ttl) \<and> entry_Order e = x
      \<and> now \<le> ExpiryTime e"
    using m(4,5,6) c by (auto simp: After_def)
next
  fix m sc e ttl
  assume f: "faults s = []"
    and h: "(m, sc) \<in> set (pending_orders s) \<and> 0 \<le> sc \<and> sc \<le> Unix now
        \<and> strings s (order_key m) = Some (Json e, ttl) \<and> ExpiryTime e < now"
  then have a: "After now (ExpiryTime e)"
    by (simp add: After_def)
  from due_orders_evict [OF f assms(1,2) _ _ _ _ a, of m sc ttl] h
  show "strings s' (order_key m) = None" "m \<notin> fst ` set (pending_orders s')"
    by simp_all
qed


subsection \<open>The invariant\<close>

lemma store_consistent_empty: "store_consistent empty_redis"
  by (simp add: store_consistent_def empty_redis_def)

lemma store_consistent_shrinks: "store_consistent s \<Longrightarrow> shrinks s' s \<Longrightarrow> store_consistent s'"
  unfolding store_consistent_def shrinks_def by blast

lemma Until_le0 [simp]: "(Until now t \<le> 0) = (t \<le> now)"
  by (auto simp: Until_def Let_def maxDuration_def minDuration_def)

lemma ToJSON_Some: "ToJSON tz_ok local e = Some v \<Longrightarrow> v = Json e"
  by (simp add: ToJSON_def split: if_splits)

lemma StoreOrder_alt:
  "StoreOrder tz_ok local createdAt now order expiryTime s =
     (if ToJSON tz_ok local
           \<lparr>entry_Order = order, ExpiryTime = expiryTime, entry_CreatedAt = createdAt\<rparr> = None
      then (Inl MarshalFailed, s)
      else if expiryTime \<le> now then (Inl ExpiryInPast, s)
      else if fst (next_fault s) then (Inl StoreFailed, snd (next_fault s))
      else if fst (next_fault (snd (next_fault s)))
           then (Inl PendingAddFailed,
                 (snd (next_fault (snd (next_fault s))))
                   \<lparr>strings := (strings s)(order_key (ID order) \<mapsto>
                      (Json \<lparr>entry_Order = order, ExpiryTime = expiryTime, entry_CreatedAt = createdAt\<rparr>,
                       Until now expiryTime))\<rparr>)
           else (Inr (),
                 (snd (next_fault (snd (next_fault s))))
                   \<lparr>strings := (strings s)(order_key (ID order) \<mapsto>
                      (Json \<lparr>entry_Order = order, ExpiryTime = expiryTime, entry_CreatedAt = createdAt\<rparr>,
                       Until now expiryTime)),
                    pending_orders := filter (\<lambda>e. fst e \<noteq> ID order) (pending_orders s)
                       @ [(ID order, Unix (ScheduledTime order))]\<rparr>))"
proof (cases "ToJSON tz_ok local
           \<lparr>entry_Order = order, ExpiryTime = expiryTime, entry_CreatedAt = createdAt\<rparr>")
  case None
  then show ?thesis
    by (simp add: StoreOrder_def Let_def)
next
  case (Some v)
  then have v: "v = Json \<lparr>entry_Order = order, ExpiryTime = expiryTime, entry_CreatedAt = createdAt\<rparr>"
    by (rule ToJSON_Some)
  show ?thesis
    by (simp add: StoreOrder_def Some v redis_Set_alt redis_ZAdd_alt next_fault_def Let_def
        split: list.splits)
qed

lemma store_consistent_StoreOrder:
  assumes "store_consistent s" "fst (StoreOrder tz_ok local createdAt now order expiryTime s) = Inr ()"
  shows "store_consistent (snd (StoreOrder tz_ok local createdAt now order expiryTime s))"
  using assms
  by (auto simp: StoreOrder_alt store_consistent_def split: if_splits)

lemma xyz_marshalled:
  "ToJSON True 0 \<lparr>entry_Order = xyz_order, ExpiryTime = 1741579210 * Second,
                    entry_CreatedAt = c * Second\<rparr> =
     (if - 62167219200 \<le> c \<and> c < 253402300800
      then Some (Json \<lparr>entry_Order = xyz_order, ExpiryTime = 1741579210 * Second,
                    entry_CreatedAt = c * Second\<rparr>) else None)"
  by (simp add: ToJSON_def year_in_range_def location_offset_def Unix_def Second_def xyz_order_def)

lemma xyz_store_eq:
  "xyz_store =
     \<lparr>strings = [order_key (ID xyz_order) \<mapsto>
         (Json \<lparr>entry_Order = xyz_order, ExpiryTime = 1741579210 * Second,
                entry_CreatedAt = 1741579190 * Second\<rparr>, 20 * Second)],
      pending_orders = [(ID xyz_order, 1741579200)], faults = []\<rparr>"
proof -
  have e: "Add (ScheduledTime xyz_order) (10 * Second) = 1741579210 * Second"
    by (simp add: Add_def xyz_order_def Second_def)
  have u: "Until (1741579190 * Second) (1741579210 * Second) = 20 * Second"
    by (simp add: Until_def Let_def Second_def maxDuration_def minDuration_def)
  have t: "\<not> 1741579210 * Second \<le> 1741579190 * Second"
    by (simp add: Second_def)
  have sc: "Unix (ScheduledTime xyz_order) = 1741579200"
    by (simp add: xyz_order_def Unix_def Second_def)
  show ?thesis
    by (simp add: xyz_store_def e StoreOrder_alt xyz_marshalled u t sc next_fault_def empty_redis_def)
qed

lemma store_consistent_xyz: "store_consistent xyz_store"
proof -
  have e: "Add (ScheduledTime xyz_order) (10 * Second) = 1741579210 * Second"
    by (simp add: Add_def xyz_order_def Second_def)
  have t: "\<not> 1741579210 * Second \<le> 1741579190 * Second"
    by (simp add: Second_def)
  show ?thesis
    unfolding xyz_store_def
    by (rule store_consistent_StoreOrder [OF store_consistent_empty])
       (simp add: e StoreOrder_alt xyz_marshalled t next_fault_def empty_redis_def)
qed

lemma due_xyz:
  "1741579200 * Second \<le> now \<Longrightarrow> now \<le> 1741579210 * Second \<Longrightarrow>
     GetOrdersDueForExecution now xyz_store = (Inr [xyz_order], xyz_store)"
  by (simp add: GetOrdersDueForExecution_def xyz_store_eq redis_ZRangeByScore_alt next_fault_def
      due_step_def redis_Get_alt After_def Let_def Unix_def Second_def)

lemma due_xyz_late:
  "1741579210 * Second < now \<Longrightarrow> fst (GetOrdersDueForExecution now xyz_store) = Inr []"
  by (simp add: GetOrdersDueForExecution_def xyz_store_eq redis_ZRangeByScore_alt next_fault_def
      due_step_def redis_Get_alt After_def Let_def Unix_def Second_def split: prod.splits)

theorem due_orders_window_witness:
  "fst (GetOrdersDueForExecution (1741579205 * Second) xyz_store) = Inr [xyz_order]
   \<and> 0 \<le> Unix (ScheduledTime xyz_order)
   \<and> Unix (ScheduledTime xyz_order) \<le> Unix (1741579205 * Second)
   \<and> ScheduledTime xyz_order \<le> 1741579205 * Second
   \<and> fst (GetOrdersDueForExecution (1741579211 * Second) xyz_store) = Inr []
   \<and> strings (snd (GetOrdersDueForExecution (1741579211 * Second) xyz_store))
        (order_key (ID xyz_order)) = None
   \<and> ID xyz_order \<notin> fst ` set (pending_orders
        (snd (GetOrdersDueForExecution (1741579211 * Second) xyz_store)))"
proof -
  have d: "GetOrdersDueForExecution (1741579205 * Second) xyz_store = (Inr [xyz_order], xyz_store)"
    by (rule due_xyz) (simp_all add: Second_def)
  have w: "ScheduledTime xyz_order mod Second = 0"
    by (simp add: xyz_order_def)
  have l: "GetOrdersDueForExecution (1741579211 * Second) xyz_store =
      (Inr [], snd (GetOrdersDueForExecution (1741579211 * Second) xyz_store))"
    using due_xyz_late [of "1741579211 * Second"] by (simp add: Second_def prod_eq_iff)
  have f: "faults xyz_store = []"
    by (simp add: xyz_store_eq)
  have r: "(ID xyz_order, 1741579200) \<in> set (pending_orders xyz_store)"
      "(0::int) \<le> 1741579200" "1741579200 \<le> Unix (1741579211 * Second)"
      "strings xyz_store (order_key (ID xyz_order)) =
         Some (Json \<lparr>entry_Order = xyz_order, ExpiryTime = 1741579210 * Second,
                entry_CreatedAt = 1741579190 * Second\<rparr>, 20 * Second)"
      "ExpiryTime \<lparr>entry_Order = xyz_order, ExpiryTime = 1741579210 * Second,
                entry_CreatedAt = 1741579190 * Second\<rparr> < 1741579211 * Second"
    by (simp_all add: xyz_store_eq Unix_def Second_def)
  from due_orders_window [OF store_consistent_xyz d] w
  have a: "0 \<le> Unix (ScheduledTime xyz_order)
       \<and> Unix (ScheduledTime xyz_order) \<le> Unix (1741579205 * Second)
       \<and> ScheduledTime xyz_order \<le> 1741579205 * Second"
    by simp
  from due_orders_window [OF store_consistent_xyz l] f r
  have b: "strings (snd (GetOrdersDueForExecution (1741579211 * Second) xyz_store))
        (order_key (ID xyz_order)) = None
     \<and> ID xyz_order \<notin> fst ` set (pending_orders
        (snd (GetOrdersDueForExecution (1741579211 * Second) xyz_store)))"
    by blast
  from a b d l show ?thesis
    by (metis fst_conv)
qed

theorem due_at_expiry_counterexample:
  "fst (GetOrdersDueForExecution (1741579210 * Second) xyz_store) = Inr [xyz_order]
   \<and> map_option fst (strings xyz_store (order_key (ID xyz_order))) =
       Some (Json \<lparr>entry_Order = xyz_order, ExpiryTime = 1741579210 * Second,
                   entry_CreatedAt = 1741579190 * Second\<rparr>)"
proof -
  have d: "GetOrdersDueForExecution (1741579210 * Second) xyz_store = (Inr [xyz_order], xyz_store)"
    by (rule due_xyz) (simp_all add: Second_def)
  show ?thesis
    by (simp add: d) (simp add: xyz_store_eq)
qed

subsection \<open>Insertion\<close>



subsection \<open>Expired inserts and rows in the past\<close>

lemma parseRows_append:
  "parseRows f tz_ok side now (xs @ ys) orders =
     parseRows f tz_ok side now ys (parseRows f tz_ok side now xs orders)"
proof (induction xs arbitrary: orders)
  case Nil
  then show ?case by simp
next
  case (Cons r xs)
  obtain row nowIST where r: "r = (row, nowIST)" by (cases r)
  show ?case
    by (simp add: r Cons.IH)
qed

lemma parseRows_skip_past:
  assumes "Before (row_scheduledTime row) nowIST"
  shows "parseRows f tz_ok side now (pre @ (row, nowIST) # post) orders =
     parseRows f tz_ok side now (pre @ post) orders"
  by (simp add: parseRows_append parse_row_past [OF assms])

lemma parseRows_past:
  assumes "\<forall>r \<in> set rows. Before (row_scheduledTime (fst r)) (snd r)"
  shows "parseRows f tz_ok side now rows orders = orders"
  using assms
proof (induction rows arbitrary: orders)
  case Nil
  then show ?case by simp
next
  case (Cons r rows)
  obtain row nowIST where r: "r = (row, nowIST)" by (cases r)
  from Cons.prems have "Before (row_scheduledTime row) nowIST"
    by (simp add: r)
  then have "parse_row f tz_ok side now nowIST row orders = orders"
    by (rule parse_row_past)
  with Cons show ?case
    by (simp add: r)
qed

lemma due_empty: "GetOrdersDueForExecution now empty_redis = (Inr [], empty_redis)"
  by (simp add: GetOrdersDueForExecution_def redis_ZRangeByScore_alt next_fault_def empty_redis_def)

text \<open>
  Claim C7, as amended. \<^verbatim>\<open>StoreOrder\<close> with an expiry at or before the clock fails and
  leaves the store as it was: with the expired error when the entry can be marshalled, with
  the marshalling error otherwise, since the entry is marshalled first. A row scheduled
  before the clock reading of its turn yields no order, so ingestion stores what it would
  store without the row, in the buy sheet as in the sell sheet, and a dispatch run after it
  does what it would do without the row. When all rows are in the past, ingestion leaves
  the store as it was, and a dispatch run on the store ingested from empty makes no call.
\<close>

theorem expired_insert_rejected:
  "(expiryTime \<le> now \<longrightarrow>
      StoreOrder tz_ok local createdAt now ord expiryTime s =
        (if ToJSON tz_ok local
              \<lparr>entry_Order = ord, ExpiryTime = expiryTime, entry_CreatedAt = createdAt\<rparr> = None
         then Inl MarshalFailed else Inl ExpiryInPast, s))
   \<and> (Before (row_scheduledTime row) nowIST \<longrightarrow>
        parse_row f tz_ok side nowBuy nowIST row orders = orders
      \<and> readAndCacheOrders f tz_ok local nowBuy nowSell clock (Some (pre @ (row, nowIST) # post)) sell s
          = readAndCacheOrders f tz_ok local nowBuy nowSell clock (Some (pre @ post)) sell s
      \<and> readAndCacheOrders f tz_ok local nowBuy nowSell clock buy (Some (pre @ (row, nowIST) # post)) s
          = readAndCacheOrders f tz_ok local nowBuy nowSell clock buy (Some (pre @ post)) s
      \<and> ExecuteDueOrders env t
           (readAndCacheOrders f tz_ok local nowBuy nowSell clock (Some (pre @ (row, nowIST) # post)) sell s)
          = ExecuteDueOrders env t
           (readAndCacheOrders f tz_ok local nowBuy nowSell clock (Some (pre @ post)) sell s)
      \<and> ExecuteDueOrders env t
           (readAndCacheOrders f tz_ok local nowBuy nowSell clock buy (Some (pre @ (row, nowIST) # post)) s)
          = ExecuteDueOrders env t
           (readAndCacheOrders f tz_ok local nowBuy nowSell clock buy (Some (pre @ post)) s))
   \<and> ((\<forall>r \<in> set rows \<union> set rows'. Before (row_scheduledTime (fst r)) (snd r)) \<longrightarrow>
        readAndCacheOrders f tz_ok local nowBuy nowSell clock (Some rows) (Some rows') s = s
      \<and> ExecuteDueOrders env t
           (readAndCacheOrders f tz_ok local nowBuy nowSell clock (Some rows) (Some rows') empty_redis)
         = (Inr (), [], empty_redis))"
proof (intro conjI impI)
  assume "expiryTime \<le> now"
  then show "StoreOrder tz_ok local createdAt now ord expiryTime s =
        (if ToJSON tz_ok local
              \<lparr>entry_Order = ord, ExpiryTime = expiryTime, entry_CreatedAt = createdAt\<rparr> = None
         then Inl MarshalFailed else Inl ExpiryInPast, s)"
    by (simp add: StoreOrder_alt)
next
  assume past: "Before (row_scheduledTime row) nowIST"
  show "parse_row f tz_ok side nowBuy nowIST row orders = orders"
    by (rule parse_row_past [OF past])
  show b: "readAndCacheOrders f tz_ok local nowBuy nowSell clock (Some (pre @ (row, nowIST) # post)) sell s
          = readAndCacheOrders f tz_ok local nowBuy nowSell clock (Some (pre @ post)) sell s"
    by (simp add: readAndCacheOrders_def parseRows_skip_past [OF past])
  show c: "readAndCacheOrders f tz_ok local nowBuy nowSell clock buy (Some (pre @ (row, nowIST) # post)) s
          = readAndCacheOrders f tz_ok local nowBuy nowSell clock buy (Some (pre @ post)) s"
    by (simp add: readAndCacheOrders_def parseRows_skip_past [OF past])
  show "ExecuteDueOrders env t
           (readAndCacheOrders f tz_ok local nowBuy nowSell clock (Some (pre @ (row, nowIST) # post)) sell s)
          = ExecuteDueOrders env t
           (readAndCacheOrders f tz_ok local nowBuy nowSell clock (Some (pre @ post)) sell s)"
    by (simp only: b)
  show "ExecuteDueOrders env t
           (readAndCacheOrders f tz_ok local nowBuy nowSell clock buy (Some (pre @ (row, nowIST) # post)) s)
          = ExecuteDueOrders env t
           (readAndCacheOrders f tz_ok local nowBuy nowSell clock buy (Some (pre @ post)) s)"
    by (simp only: c)
next
  assume past: "\<forall>r \<in> set rows \<union> set rows'. Before (row_scheduledTime (fst r)) (snd r)"
  then have b: "parseRows f tz_ok ''Buy'' nowBuy rows [] = []"
    by (intro parseRows_past) simp
  from past have s: "parseRows f tz_ok ''Sell'' nowSell rows' [] = []"
    by (intro parseRows_past) simp
  show "readAndCacheOrders f tz_ok local nowBuy nowSell clock (Some rows) (Some rows') s = s"
    by (simp add: readAndCacheOrders_def b s)
  show "ExecuteDueOrders env t
           (readAndCacheOrders f tz_ok local nowBuy nowSell clock (Some rows) (Some rows') empty_redis)
         = (Inr (), [], empty_redis)"
    by (simp add: readAndCacheOrders_def b s ExecuteDueOrders_def due_empty)
qed

theorem expired_insert_rejected_witness:
  "StoreOrder True 0 (1741579210 * Second) (1741579210 * Second) xyz_order (1741579210 * Second) xyz_store
     = (Inl ExpiryInPast, xyz_store)
   \<and> readAndCacheOrders (\<lambda>t. ''2025-03-10T09:30:00+05:30'') True 0 0 0 (\<lambda>x. (0, 0))
        (Some [(\<lparr>row_price = Num 100, row_symbol = ''XYZ'', row_scheduledTime = 1741579200 * Second,
                  row_lots = Some 1, row_totalQuantity = 5, row_exchange = ''NSE''\<rparr>,
                1741579210 * Second)])
        (Some []) xyz_store = xyz_store
   \<and> ExecuteDueOrders
        \<lparr>ctx_done = (\<lambda>x. False), wait_ok = (\<lambda>x. True), broker_reply = (\<lambda>x. (zero_result, None))\<rparr>
        (1741579210 * Second)
        (readAndCacheOrders (\<lambda>t. ''2025-03-10T09:30:00+05:30'') True 0 0 0 (\<lambda>x. (0, 0))
          (Some [(\<lparr>row_price = Num 100, row_symbol = ''XYZ'', row_scheduledTime = 1741579200 * Second,
                    row_lots = Some 1, row_totalQuantity = 5, row_exchange = ''NSE''\<rparr>,
                  1741579210 * Second)])
          (Some []) xyz_store)
      = ExecuteDueOrders
        \<lparr>ctx_done = (\<lambda>x. False), wait_ok = (\<lambda>x. True), broker_reply = (\<lambda>x. (zero_result, None))\<rparr>
        (1741579210 * Second) xyz_store
   \<and> ExecuteDueOrders
        \<lparr>ctx_done = (\<lambda>x. False), wait_ok = (\<lambda>x. True), broker_reply = (\<lambda>x. (zero_result, None))\<rparr>
        (1741579210 * Second)
        (readAndCacheOrders (\<lambda>t. ''2025-03-10T09:30:00+05:30'') True 0 0 0 (\<lambda>x. (0, 0))
          (Some [(\<lparr>row_price = Num 100, row_symbol = ''XYZ'', row_scheduledTime = 1741579200 * Second,
                    row_lots = Some 1, row_totalQuantity = 5, row_exchange = ''NSE''\<rparr>,
                  1741579210 * Second)])
          (Some []) empty_redis) = (Inr (), [], empty_redis)"
proof -
  let ?row = "\<lparr>row_price = Num 100, row_symbol = ''XYZ'', row_scheduledTime = 1741579200 * Second,
                  row_lots = Some 1, row_totalQuantity = 5, row_exchange = ''NSE''\<rparr>"
  let ?rows = "[(?row, 1741579210 * Second)]"
  have h1: "1741579210 * Second \<le> 1741579210 * Second"
    by simp
  have h2: "Before (row_scheduledTime ?row) (1741579210 * Second)"
    by (simp add: Before_def Second_def)
  have h3: "\<forall>r \<in> set ?rows \<union> set []. Before (row_scheduledTime (fst r)) (snd r)"
    by (simp add: Before_def Second_def)
  have m: "ToJSON True 0 \<lparr>entry_Order = xyz_order, ExpiryTime = 1741579210 * Second,
              entry_CreatedAt = 1741579210 * Second\<rparr> \<noteq> None"
    by (simp add: xyz_marshalled)
  have n: "readAndCacheOrders f True 0 0 0 clock (Some []) (Some []) s = s" for f clock s
    by (simp add: readAndCacheOrders_def)
  note t = expired_insert_rejected [where expiryTime = "1741579210 * Second"
      and now = "1741579210 * Second" and createdAt = "1741579210 * Second" and ord = xyz_order
      and tz_ok = True and local = 0 and s = xyz_store and row = ?row
      and nowIST = "1741579210 * Second" and f = "\<lambda>t. ''2025-03-10T09:30:00+05:30''"
      and nowBuy = 0 and nowSell = 0 and clock = "\<lambda>x. (0, 0)" and pre = "[]" and post = "[]"
      and sell = "Some []" and rows = ?rows and rows' = "[]"
      and env = "\<lparr>ctx_done = (\<lambda>x. False), wait_ok = (\<lambda>x. True), broker_reply = (\<lambda>x. (zero_result, None))\<rparr>"
      and t = "1741579210 * Second", unfolded append_Nil n]
  from t h1 have "StoreOrder True 0 (1741579210 * Second) (1741579210 * Second) xyz_order
      (1741579210 * Second) xyz_store =
      (if ToJSON True 0 \<lparr>entry_Order = xyz_order, ExpiryTime = 1741579210 * Second,
              entry_CreatedAt = 1741579210 * Second\<rparr> = None
       then Inl MarshalFailed else Inl ExpiryInPast, xyz_store)"
    by blast
  with m have a: "StoreOrder True 0 (1741579210 * Second) (1741579210 * Second) xyz_order
      (1741579210 * Second) xyz_store = (Inl ExpiryInPast, xyz_store)"
    by simp
  from t h2 h3 a show ?thesis
    by blast
qed

theorem unmarshallable_insert_counterexample:
  "StoreOrder True 0 (1741579215 * Second) (1741579215 * Second) (xyz_order\<lparr>Price := NaN\<rparr>)
      (1741579210 * Second) empty_redis = (Inl MarshalFailed, empty_redis)
   \<and> 1741579210 * Second \<le> 1741579215 * Second"
  by (simp add: StoreOrder_alt ToJSON_def Second_def)

subsection \<open>The dispatch protocol\<close>

lemma TryLock_alt:
  "TryLock m ttl s =
     (if fst (next_fault s) then (Inl LockFailed, snd (next_fault s))
      else if strings s (lock_key m) = None
           then (Inr True, (snd (next_fault s))\<lparr>strings := (strings s)(lock_key m \<mapsto> (Raw ''1'', ttl))\<rparr>)
           else (Inr False, snd (next_fault s)))"
  by (simp add: TryLock_def redis_SetNX_alt Let_def)

lemma ReleaseLock_alt:
  "ReleaseLock m s =
     (if fst (next_fault s) then (Inl ReleaseFailed, snd (next_fault s))
      else (Inr (), (snd (next_fault s))\<lparr>strings := (strings s)(lock_key m := None)\<rparr>))"
  by (simp add: ReleaseLock_def redis_Del_alt Let_def)

lemma shrinks_ReleaseLock: "shrinks (snd (ReleaseLock m s)) s"
  by (auto simp: shrinks_def ReleaseLock_alt split: if_splits)

lemma TryLock_orders:
  "strings (snd (TryLock m ttl s)) (order_key k) = strings s (order_key k)"
  "pending_orders (snd (TryLock m ttl s)) = pending_orders s"
  by (simp_all add: TryLock_alt lock_key_order_key)

lemma TryLock_error:
  assumes "TryLock m ttl s = (Inl err, s1)"
  shows "strings s1 = strings s" and "pending_orders s1 = pending_orders s"
  using assms by (auto simp: TryLock_alt split: if_splits)

lemma ReleaseLock_orders:
  "strings (snd (ReleaseLock m s)) (order_key k) = strings s (order_key k)"
  "pending_orders (snd (ReleaseLock m s)) = pending_orders s"
  by (simp_all add: ReleaseLock_alt lock_key_order_key)

lemma RemoveOrder_Inr:
  assumes "fst (RemoveOrder m s) = Inr ()"
  shows "strings (snd (RemoveOrder m s)) (order_key m) = None"
    and "m \<notin> fst ` set (pending_orders (snd (RemoveOrder m s)))"
  using assms by (auto simp: RemoveOrder_alt split: if_splits)

lemma RemoveOrder_failed:
  assumes "fst (RemoveOrder m s) = Inl RemoveFailed"
  shows "strings (snd (RemoveOrder m s)) = strings s"
    and "pending_orders (snd (RemoveOrder m s)) = pending_orders s"
  using assms by (auto simp: RemoveOrder_alt split: if_splits)

lemma RemoveOrder_pending_failed:
  assumes "fst (RemoveOrder m s) = Inl RemovePendingFailed"
  shows "strings (snd (RemoveOrder m s)) (order_key m) = None"
    and "pending_orders (snd (RemoveOrder m s)) = pending_orders s"
  using assms by (auto simp: RemoveOrder_alt split: if_splits)

lemma RemoveOrder_outcomes:
  "fst (RemoveOrder m s) = Inr () \<or> fst (RemoveOrder m s) = Inl RemoveFailed
     \<or> fst (RemoveOrder m s) = Inl RemovePendingFailed"
  by (simp add: RemoveOrder_alt)

lemma executeOrder_lock_error:
  assumes "TryLock (ID ord) (30 * Second) s = (Inl err, s1)"
  shows "executeOrder env ord s =
     ([CallTryLock (ID ord), CallRemoveOrder (ID ord)], snd (RemoveOrder (ID ord) s1))"
  using assms by (simp add: executeOrder_def removeOrder_def Let_def)

lemma executeOrder_lock_busy:
  assumes "TryLock (ID ord) (30 * Second) s = (Inr False, s1)"
  shows "executeOrder env ord s = ([CallTryLock (ID ord)], s1)"
  using assms by (simp add: executeOrder_def Let_def)

lemma executeOrder_locked:
  assumes "TryLock (ID ord) (30 * Second) s = (Inr True, s1)"
  shows "executeOrder env ord s =
     (CallTryLock (ID ord) # fst (BrokerManager_ExecuteOrder env ord)
        @ (if snd (snd (BrokerManager_ExecuteOrder env ord)) = None
           then [CallRemoveOrder (ID ord),
                 LogOutcome (ID ord) (Success (fst (snd (BrokerManager_ExecuteOrder env ord))))]
           else [LogOutcome (ID ord) False, CallRemoveOrder (ID ord)])
        @ [CallReleaseLock (ID ord)],
      snd (ReleaseLock (ID ord) (snd (RemoveOrder (ID ord) s1))))"
  using assms
  by (cases "BrokerManager_ExecuteOrder env ord")
     (auto simp: executeOrder_def removeOrder_def Let_def split: option.splits)

lemma BrokerManager_events:
  "fst (BrokerManager_ExecuteOrder env ord) =
     (if wait_ok env ord then [CallRateWait (ID ord), CallBroker ord] else [CallRateWait (ID ord)])"
  "\<not> wait_ok env ord \<Longrightarrow> snd (snd (BrokerManager_ExecuteOrder env ord)) \<noteq> None"
  "wait_ok env ord \<Longrightarrow> snd (snd (BrokerManager_ExecuteOrder env ord)) = snd (broker_reply env ord)"
  "wait_ok env ord \<Longrightarrow> fst (snd (BrokerManager_ExecuteOrder env ord)) = fst (broker_reply env ord)"
  by (auto simp: BrokerManager_ExecuteOrder_def split: prod.splits option.splits)

lemma worker_cancelled:
  assumes "\<forall>x \<in> set orders. ctx_done env x"
  shows "worker env orders s = ([], s)"
  using assms by (cases orders) simp_all

lemma xyz_locked:
  "TryLock (ID xyz_order) (30 * Second) xyz_store =
     (Inr True, xyz_store\<lparr>strings := (strings xyz_store)(lock_key (ID xyz_order) \<mapsto> (Raw ''1'', 30 * Second))\<rparr>)"
  by (simp add: TryLock_alt next_fault_def xyz_store_eq)

lemma xyz_removed:
  "RemoveOrder (ID xyz_order)
     (xyz_store\<lparr>strings := (strings xyz_store)(lock_key (ID xyz_order) \<mapsto> (Raw ''1'', 30 * Second))\<rparr>)
   = (Inr (), empty_redis\<lparr>strings := [lock_key (ID xyz_order) \<mapsto> (Raw ''1'', 30 * Second)]\<rparr>)"
  by (simp add: RemoveOrder_alt next_fault_def xyz_store_eq empty_redis_def fun_upd_twist)

lemma xyz_released:
  "ReleaseLock (ID xyz_order)
     (empty_redis\<lparr>strings := [lock_key (ID xyz_order) \<mapsto> (Raw ''1'', 30 * Second)]\<rparr>)
   = (Inr (), empty_redis)"
  by (simp add: ReleaseLock_alt next_fault_def empty_redis_def)

text \<open>
  Claim C10, as amended. When \<^verbatim>\<open>TryLock\<close> returns an error, \<^verbatim>\<open>executeOrder\<close> calls
  \<^verbatim>\<open>RemoveOrder\<close> and returns: no rate-limiter wait, no broker call. The failed lock
  command has changed neither the records nor the index. When the removal goes through, the
  record and its index entry are gone; when its first command fails too, records and index
  are as they were, so that the order is still there for a later run; when its second
  command fails, the record is gone and the index is as it was. When \<^verbatim>\<open>TryLock\<close> returns
  false, the order is skipped: nothing but the lock attempt happens, and records and index
  are as before.
\<close>

theorem lock_error_drops_order:
  "(TryLock (ID ord) (30 * Second) s = (Inl err, s1) \<longrightarrow>
      executeOrder env ord s =
        ([CallTryLock (ID ord), CallRemoveOrder (ID ord)], snd (RemoveOrder (ID ord) s1))
    \<and> filter is_broker_call (fst (executeOrder env ord s)) = []
    \<and> strings s1 = strings s \<and> pending_orders s1 = pending_orders s
    \<and> (fst (RemoveOrder (ID ord) s1) = Inr () \<or> fst (RemoveOrder (ID ord) s1) = Inl RemoveFailed
         \<or> fst (RemoveOrder (ID ord) s1) = Inl RemovePendingFailed)
    \<and> (fst (RemoveOrder (ID ord) s1) = Inr () \<longrightarrow>
          strings (snd (executeOrder env ord s)) (order_key (ID ord)) = None
        \<and> ID ord \<notin> fst ` set (pending_orders (snd (executeOrder env ord s))))
    \<and> (fst (RemoveOrder (ID ord) s1) = Inl RemoveFailed \<longrightarrow>
          strings (snd (executeOrder env ord s)) = strings s
        \<and> pending_orders (snd (executeOrder env ord s)) = pending_orders s)
    \<and> (fst (RemoveOrder (ID ord) s1) = Inl RemovePendingFailed \<longrightarrow>
          strings (snd (executeOrder env ord s)) (order_key (ID ord)) = None
        \<and> pending_orders (snd (executeOrder env ord s)) = pending_orders s))
   \<and> (TryLock (ID ord) (30 * Second) s = (Inr False, s1) \<longrightarrow>
      executeOrder env ord s = ([CallTryLock (ID ord)], s1)
    \<and> strings s1 = strings s \<and> pending_orders s1 = pending_orders s)"
proof (intro conjI impI)
  assume e: "TryLock (ID ord) (30 * Second) s = (Inl err, s1)"
  show x: "executeOrder env ord s =
        ([CallTryLock (ID ord), CallRemoveOrder (ID ord)], snd (RemoveOrder (ID ord) s1))"
    by (rule executeOrder_lock_error [OF e])
  show "filter is_broker_call (fst (executeOrder env ord s)) = []"
    by (simp add: x is_broker_call_def)
  show s1: "strings s1 = strings s" "pending_orders s1 = pending_orders s"
    by (rule TryLock_error [OF e])+
  show "fst (RemoveOrder (ID ord) s1) = Inr () \<or> fst (RemoveOrder (ID ord) s1) = Inl RemoveFailed
         \<or> fst (RemoveOrder (ID ord) s1) = Inl RemovePendingFailed"
    by (rule RemoveOrder_outcomes)
  {
    assume r: "fst (RemoveOrder (ID ord) s1) = Inr ()"
    show "strings (snd (executeOrder env ord s)) (order_key (ID ord)) = None"
      using RemoveOrder_Inr(1) [OF r] by (simp add: x)
    show "ID ord \<notin> fst ` set (pending_orders (snd (executeOrder env ord s)))"
      using RemoveOrder_Inr(2) [OF r] by (simp add: x)
  }
  {
    assume r: "fst (RemoveOrder (ID ord) s1) = Inl RemoveFailed"
    show "strings (snd (executeOrder env ord s)) = strings s"
      using RemoveOrder_failed(1) [OF r] by (simp add: x s1)
    show "pending_orders (snd (executeOrder env ord s)) = pending_orders s"
      using RemoveOrder_failed(2) [OF r] by (simp add: x s1)
  }
  {
    assume r: "fst (RemoveOrder (ID ord) s1) = Inl RemovePendingFailed"
    show "strings (snd (executeOrder env ord s)) (order_key (ID ord)) = None"
      using RemoveOrder_pending_failed(1) [OF r] by (simp add: x)
    show "pending_orders (snd (executeOrder env ord s)) = pending_orders s"
      using RemoveOrder_pending_failed(2) [OF r] by (simp add: x s1)
  }
next
  assume b: "TryLock (ID ord) (30 * Second) s = (Inr False, s1)"
  show "executeOrder env ord s = ([CallTryLock (ID ord)], s1)"
    by (rule executeOrder_lock_busy [OF b])
  from b show "strings s1 = strings s" "pending_orders s1 = pending_orders s"
    by (auto simp: TryLock_alt split: if_splits)
qed

theorem lock_error_drops_order_witness:
  "executeOrder \<lparr>ctx_done = (\<lambda>x. False), wait_ok = (\<lambda>x. True),
                  broker_reply = (\<lambda>x. (zero_result, None))\<rparr>
      xyz_order (xyz_store\<lparr>faults := [True]\<rparr>)
     = ([CallTryLock (ID xyz_order), CallRemoveOrder (ID xyz_order)], empty_redis)
   \<and> executeOrder \<lparr>ctx_done = (\<lambda>x. False), wait_ok = (\<lambda>x. True),
                  broker_reply = (\<lambda>x. (zero_result, None))\<rparr>
      xyz_order (xyz_store\<lparr>faults := [True, False, True]\<rparr>)
     = ([CallTryLock (ID xyz_order), CallRemoveOrder (ID xyz_order)],
        xyz_store\<lparr>strings := Map.empty\<rparr>)
   \<and> executeOrder \<lparr>ctx_done = (\<lambda>x. False), wait_ok = (\<lambda>x. True),
                  broker_reply = (\<lambda>x. (zero_result, None))\<rparr>
      xyz_order (xyz_store\<lparr>strings := (strings xyz_store)(lock_key (ID xyz_order) \<mapsto> (Raw ''1'', 30 * Second))\<rparr>)
     = ([CallTryLock (ID xyz_order)],
        xyz_store\<lparr>strings := (strings xyz_store)(lock_key (ID xyz_order) \<mapsto> (Raw ''1'', 30 * Second))\<rparr>)"
proof -
  let ?env = "\<lparr>ctx_done = (\<lambda>x. False), wait_ok = (\<lambda>x. True),
                  broker_reply = (\<lambda>x. (zero_result, None))\<rparr>"
  let ?held = "xyz_store\<lparr>strings := (strings xyz_store)(lock_key (ID xyz_order) \<mapsto> (Raw ''1'', 30 * Second))\<rparr>"
  have e: "TryLock (ID xyz_order) (30 * Second) (xyz_store\<lparr>faults := [True]\<rparr>)
      = (Inl LockFailed, xyz_store)"
    by (simp add: TryLock_alt next_fault_def xyz_store_eq)
  have r: "RemoveOrder (ID xyz_order) xyz_store = (Inr (), empty_redis)"
    by (simp add: RemoveOrder_alt next_fault_def xyz_store_eq empty_redis_def)
  have e': "TryLock (ID xyz_order) (30 * Second) (xyz_store\<lparr>faults := [True, False, True]\<rparr>)
      = (Inl LockFailed, xyz_store\<lparr>faults := [False, True]\<rparr>)"
    by (simp add: TryLock_alt next_fault_def xyz_store_eq)
  have r': "RemoveOrder (ID xyz_order) (xyz_store\<lparr>faults := [False, True]\<rparr>)
      = (Inl RemovePendingFailed, xyz_store\<lparr>strings := Map.empty\<rparr>)"
    by (simp add: RemoveOrder_alt next_fault_def xyz_store_eq)
  have b: "TryLock (ID xyz_order) (30 * Second) ?held = (Inr False, ?held)"
    by (simp add: TryLock_alt next_fault_def xyz_store_eq)
  from lock_error_drops_order [of xyz_order "xyz_store\<lparr>faults := [True]\<rparr>" LockFailed xyz_store ?env] e r
  have 1: "executeOrder ?env xyz_order (xyz_store\<lparr>faults := [True]\<rparr>)
     = ([CallTryLock (ID xyz_order), CallRemoveOrder (ID xyz_order)], empty_redis)"
    by simp
  from lock_error_drops_order [of xyz_order "xyz_store\<lparr>faults := [True, False, True]\<rparr>" LockFailed
      "xyz_store\<lparr>faults := [False, True]\<rparr>" ?env] e' r'
  have 2: "executeOrder ?env xyz_order (xyz_store\<lparr>faults := [True, False, True]\<rparr>)
     = ([CallTryLock (ID xyz_order), CallRemoveOrder (ID xyz_order)], xyz_store\<lparr>strings := Map.empty\<rparr>)"
    by simp
  from lock_error_drops_order [of xyz_order ?held LockFailed ?held ?env] b
  have 3: "executeOrder ?env xyz_order ?held = ([CallTryLock (ID xyz_order)], ?held)"
    by simp
  from 1 2 3 show ?thesis
    by (intro conjI)
qed

theorem lock_error_order_kept_counterexample:
  "executeOrder \<lparr>ctx_done = (\<lambda>x. False), wait_ok = (\<lambda>x. True),
        broker_reply = (\<lambda>x. (zero_result\<lparr>Success := True\<rparr>, None))\<rparr>
      xyz_order (xyz_store\<lparr>faults := [True, True]\<rparr>)
     = ([CallTryLock (ID xyz_order), CallRemoveOrder (ID xyz_order)], xyz_store)
   \<and> GetOrdersDueForExecution (1741579205 * Second)
        (snd (executeOrder \<lparr>ctx_done = (\<lambda>x. False), wait_ok = (\<lambda>x. True),
           broker_reply = (\<lambda>x. (zero_result\<lparr>Success := True\<rparr>, None))\<rparr>
           xyz_order (xyz_store\<lparr>faults := [True, True]\<rparr>)))
     = (Inr [xyz_order], xyz_store)
   \<and> ExecuteDueOrders \<lparr>ctx_done = (\<lambda>x. False), wait_ok = (\<lambda>x. True),
           broker_reply = (\<lambda>x. (zero_result\<lparr>Success := True\<rparr>, None))\<rparr> (1741579205 * Second)
        (snd (executeOrder \<lparr>ctx_done = (\<lambda>x. False), wait_ok = (\<lambda>x. True),
           broker_reply = (\<lambda>x. (zero_result\<lparr>Success := True\<rparr>, None))\<rparr>
           xyz_order (xyz_store\<lparr>faults := [True, True]\<rparr>)))
     = (Inr (),
        [CallTryLock (ID xyz_order), CallRateWait (ID xyz_order), CallBroker xyz_order,
         CallRemoveOrder (ID xyz_order), LogOutcome (ID xyz_order) True,
         CallReleaseLock (ID xyz_order)], empty_redis)"
proof -
  let ?env = "\<lparr>ctx_done = (\<lambda>x. False), wait_ok = (\<lambda>x. True),
        broker_reply = (\<lambda>x. (zero_result\<lparr>Success := True\<rparr>, None))\<rparr>"
  have e: "TryLock (ID xyz_order) (30 * Second) (xyz_store\<lparr>faults := [True, True]\<rparr>)
      = (Inl LockFailed, xyz_store\<lparr>faults := [True]\<rparr>)"
    by (simp add: TryLock_alt next_fault_def xyz_store_eq)
  have r: "RemoveOrder (ID xyz_order) (xyz_store\<lparr>faults := [True]\<rparr>) = (Inl RemoveFailed, xyz_store)"
    by (simp add: RemoveOrder_alt next_fault_def xyz_store_eq)
  have x: "executeOrder ?env xyz_order (xyz_store\<lparr>faults := [True, True]\<rparr>)
     = ([CallTryLock (ID xyz_order), CallRemoveOrder (ID xyz_order)], xyz_store)"
    by (simp add: executeOrder_lock_error [OF e] r)
  have d: "GetOrdersDueForExecution (1741579205 * Second) xyz_store = (Inr [xyz_order], xyz_store)"
    by (rule due_xyz) (simp_all add: Second_def)
  have w: "executeOrder ?env xyz_order xyz_store
     = ([CallTryLock (ID xyz_order), CallRateWait (ID xyz_order), CallBroker xyz_order,
         CallRemoveOrder (ID xyz_order), LogOutcome (ID xyz_order) True,
         CallReleaseLock (ID xyz_order)], empty_redis)"
    by (simp add: executeOrder_locked [OF xyz_locked] BrokerManager_ExecuteOrder_def
        xyz_removed xyz_released)
  show ?thesis
    unfolding x by (simp add: d ExecuteDueOrders_def w)
qed

text \<open>
  Claim C2, as amended. When the lock is acquired and the rate limiter's wait fails because
  the context was cancelled, no broker call is made; the failure is logged, \<^verbatim>\<open>RemoveOrder\<close>
  is called like after any failed attempt, and the lock is released; the worker, finding
  the context cancelled at the orders that follow, returns without a broker call. The
  record and index entry are gone when the removal goes through, and the lock key is gone
  when the release goes through.
\<close>

theorem cancelled_wait_still_evicts:
  assumes "TryLock (ID ord) (30 * Second) s = (Inr True, s1)"
    and "\<not> ctx_done env ord" and "\<not> wait_ok env ord"
    and "\<forall>x \<in> set rest. ctx_done env x"
  shows "worker env (ord # rest) s = executeOrder env ord s
       \<and> fst (worker env (ord # rest) s) =
           [CallTryLock (ID ord), CallRateWait (ID ord), LogOutcome (ID ord) False,
            CallRemoveOrder (ID ord), CallReleaseLock (ID ord)]
       \<and> filter is_broker_call (fst (worker env (ord # rest) s)) = []
       \<and> snd (worker env (ord # rest) s) = snd (ReleaseLock (ID ord) (snd (RemoveOrder (ID ord) s1)))
       \<and> (fst (RemoveOrder (ID ord) s1) = Inr () \<longrightarrow>
            strings (snd (worker env (ord # rest) s)) (order_key (ID ord)) = None
          \<and> ID ord \<notin> fst ` set (pending_orders (snd (worker env (ord # rest) s))))
       \<and> (fst (ReleaseLock (ID ord) (snd (RemoveOrder (ID ord) s1))) = Inr () \<longrightarrow>
            strings (snd (worker env (ord # rest) s)) (lock_key (ID ord)) = None)"
proof (intro conjI impI)
  note x = executeOrder_locked [OF assms(1), of env]
  show w: "worker env (ord # rest) s = executeOrder env ord s"
    using assms(2) by (simp add: worker_cancelled [OF assms(4)] split: prod.splits)
  show t: "fst (worker env (ord # rest) s) =
           [CallTryLock (ID ord), CallRateWait (ID ord), LogOutcome (ID ord) False,
            CallRemoveOrder (ID ord), CallReleaseLock (ID ord)]"
    unfolding w using assms(3) BrokerManager_events(2) [OF assms(3)]
    by (simp add: x BrokerManager_events(1))
  show "filter is_broker_call (fst (worker env (ord # rest) s)) = []"
    unfolding t by (simp add: is_broker_call_def)
  show "snd (worker env (ord # rest) s) = snd (ReleaseLock (ID ord) (snd (RemoveOrder (ID ord) s1)))"
    unfolding w by (simp add: x)
  {
    assume r: "fst (RemoveOrder (ID ord) s1) = Inr ()"
    have sh: "shrinks (snd (worker env (ord # rest) s)) (snd (RemoveOrder (ID ord) s1))"
      unfolding w by (simp add: x shrinks_ReleaseLock)
    show "strings (snd (worker env (ord # rest) s)) (order_key (ID ord)) = None"
      by (rule shrinks_gone(1) [OF sh RemoveOrder_Inr(1) [OF r]])
    show "ID ord \<notin> fst ` set (pending_orders (snd (worker env (ord # rest) s)))"
      by (rule shrinks_gone(2) [OF sh RemoveOrder_Inr(2) [OF r]])
  }
  assume "fst (ReleaseLock (ID ord) (snd (RemoveOrder (ID ord) s1))) = Inr ()"
  then show "strings (snd (worker env (ord # rest) s)) (lock_key (ID ord)) = None"
    unfolding w by (auto simp: x ReleaseLock_alt split: if_splits)
qed

theorem cancelled_wait_still_evicts_witness:
  "worker \<lparr>ctx_done = (\<lambda>x. ID x \<noteq> ID xyz_order), wait_ok = (\<lambda>x. False),
             broker_reply = (\<lambda>x. (zero_result, None))\<rparr>
      [xyz_order, xyz_order\<lparr>ID := ''ABC:2025-03-10T09:30:00+05:30''\<rparr>] xyz_store
     = ([CallTryLock (ID xyz_order), CallRateWait (ID xyz_order), LogOutcome (ID xyz_order) False,
         CallRemoveOrder (ID xyz_order), CallReleaseLock (ID xyz_order)], empty_redis)"
proof -
  let ?env = "\<lparr>ctx_done = (\<lambda>x. ID x \<noteq> ID xyz_order), wait_ok = (\<lambda>x. False),
                  broker_reply = (\<lambda>x. (zero_result, None))\<rparr>"
  have c: "\<not> ctx_done ?env xyz_order"
    by simp
  have w: "\<not> wait_ok ?env xyz_order"
    by simp
  have r: "\<forall>x \<in> set [xyz_order\<lparr>ID := ''ABC:2025-03-10T09:30:00+05:30''\<rparr>]. ctx_done ?env x"
    by (simp add: xyz_order_def)
  note t = cancelled_wait_still_evicts [OF xyz_locked c w r,
      unfolded xyz_removed xyz_released snd_conv fst_conv]
  from t have a: "fst (worker ?env [xyz_order, xyz_order\<lparr>ID := ''ABC:2025-03-10T09:30:00+05:30''\<rparr>]
      xyz_store) = [CallTryLock (ID xyz_order), CallRateWait (ID xyz_order),
         LogOutcome (ID xyz_order) False, CallRemoveOrder (ID xyz_order),
         CallReleaseLock (ID xyz_order)]"
    by blast
  from t have b: "snd (worker ?env [xyz_order, xyz_order\<lparr>ID := ''ABC:2025-03-10T09:30:00+05:30''\<rparr>]
      xyz_store) = empty_redis"
    by blast
  from a b show ?thesis
    by (simp only: prod_eq_iff fst_conv snd_conv)
qed

theorem cancelled_wait_evicts_counterexample:
  "strings xyz_store (order_key (ID xyz_order)) \<noteq> None
   \<and> CallRemoveOrder (ID xyz_order) \<in> set (fst (executeOrder
        \<lparr>ctx_done = (\<lambda>x. False), wait_ok = (\<lambda>x. False),
         broker_reply = (\<lambda>x. (zero_result, None))\<rparr> xyz_order xyz_store))
   \<and> strings (snd (executeOrder
        \<lparr>ctx_done = (\<lambda>x. False), wait_ok = (\<lambda>x. False),
         broker_reply = (\<lambda>x. (zero_result, None))\<rparr> xyz_order xyz_store))
        (order_key (ID xyz_order)) = None
   \<and> pending_orders (snd (executeOrder
        \<lparr>ctx_done = (\<lambda>x. False), wait_ok = (\<lambda>x. False),
         broker_reply = (\<lambda>x. (zero_result, None))\<rparr> xyz_order xyz_store)) = []"
proof -
  let ?env = "\<lparr>ctx_done = (\<lambda>x. False), wait_ok = (\<lambda>x. False),
                  broker_reply = (\<lambda>x. (zero_result, None))\<rparr>"
  have x: "executeOrder ?env xyz_order xyz_store
     = ([CallTryLock (ID xyz_order), CallRateWait (ID xyz_order), LogOutcome (ID xyz_order) False,
         CallRemoveOrder (ID xyz_order), CallReleaseLock (ID xyz_order)], empty_redis)"
    by (simp add: executeOrder_locked [OF xyz_locked] BrokerManager_ExecuteOrder_def
        xyz_removed xyz_released)
  show ?thesis
    unfolding x by (simp add: xyz_store_eq empty_redis_def)
qed

subsection \<open>Removal after an attempt\<close>

lemma order_shrinks_refl: "order_shrinks s s"
  by (simp add: order_shrinks_def)

lemma order_shrinks_trans:
  assumes "order_shrinks s2 s1" "order_shrinks s1 s0"
  shows "order_shrinks s2 s0"
  unfolding order_shrinks_def
proof
  fix k
  from assms(1) have a: "strings s2 (order_key k) = None \<or> strings s2 (order_key k) = strings s1 (order_key k)"
    by (simp add: order_shrinks_def)
  from assms(2) have b: "strings s1 (order_key k) = None \<or> strings s1 (order_key k) = strings s0 (order_key k)"
    by (simp add: order_shrinks_def)
  from a b show "strings s2 (order_key k) = None \<or> strings s2 (order_key k) = strings s0 (order_key k)"
    by auto
qed

lemma shrinks_order_shrinks:
  assumes "shrinks s' s"
  shows "order_shrinks s' s"
  unfolding order_shrinks_def
proof
  fix k
  show "strings s' (order_key k) = None \<or> strings s' (order_key k) = strings s (order_key k)"
  proof (cases "strings s' (order_key k)")
    case None
    then show ?thesis by simp
  next
    case (Some v)
    with assms have "strings s (order_key k) = Some v"
      unfolding shrinks_def by blast
    with Some show ?thesis by simp
  qed
qed

lemma order_shrinks_TryLock: "order_shrinks (snd (TryLock m ttl s)) s"
  by (simp add: order_shrinks_def TryLock_orders)

lemma shrinks_next_fault: "shrinks (snd (next_fault s)) s"
  by (simp add: shrinks_def)

lemma shrinks_due: "shrinks (snd (GetOrdersDueForExecution now s)) s"
proof -
  have "shrinks (snd (due_loop now ids [] (snd (next_fault s)))) s" for ids
    by (rule shrinks_trans [OF due_loop_shrinks shrinks_next_fault])
  then show ?thesis
    by (simp add: GetOrdersDueForExecution_def Let_def redis_ZRangeByScore_alt shrinks_next_fault
        split_beta)
qed

lemma order_shrinks_executeOrder: "order_shrinks (snd (executeOrder env ord s)) s"
proof -
  obtain r s1 where t: "TryLock (ID ord) (30 * Second) s = (r, s1)"
    by (cases "TryLock (ID ord) (30 * Second) s")
  have s1: "order_shrinks s1 s"
    using order_shrinks_TryLock [of "ID ord" "30 * Second" s] by (simp add: t)
  have rm: "order_shrinks (snd (RemoveOrder (ID ord) s1)) s"
    by (rule order_shrinks_trans [OF shrinks_order_shrinks [OF shrinks_RemoveOrder] s1])
  have rl: "order_shrinks (snd (ReleaseLock (ID ord) (snd (RemoveOrder (ID ord) s1)))) s"
    by (rule order_shrinks_trans [OF shrinks_order_shrinks [OF shrinks_ReleaseLock] rm])
  show ?thesis
  proof (cases r)
    case (Inl err)
    with t rm show ?thesis
      by (simp add: executeOrder_lock_error)
  next
    case (Inr acquired)
    show ?thesis
    proof (cases acquired)
      case True
      with t Inr rl show ?thesis
        by (simp add: executeOrder_locked)
    next
      case False
      with t Inr s1 show ?thesis
        by (simp add: executeOrder_lock_busy)
    qed
  qed
qed

lemma order_shrinks_worker: "order_shrinks (snd (worker env orders s)) s"
proof (induction orders arbitrary: s)
  case Nil
  show ?case by (simp add: order_shrinks_refl)
next
  case (Cons ord orders)
  show ?case
  proof (cases "ctx_done env ord")
    case True
    then show ?thesis by (simp add: order_shrinks_refl)
  next
    case False
    have "order_shrinks (snd (worker env orders (snd (executeOrder env ord s)))) s"
      by (rule order_shrinks_trans [OF Cons.IH order_shrinks_executeOrder])
    with False show ?thesis
      by (simp add: split_beta)
  qed
qed

lemma order_shrinks_ExecuteDueOrders: "order_shrinks (snd (snd (ExecuteDueOrders env now s))) s"
proof -
  obtain r s1 where d: "GetOrdersDueForExecution now s = (r, s1)"
    by (cases "GetOrdersDueForExecution now s")
  have s1: "order_shrinks s1 s"
    using shrinks_order_shrinks [OF shrinks_due [of now s]] by (simp add: d)
  have w: "order_shrinks (snd (worker env orders s1)) s" for orders
    by (rule order_shrinks_trans [OF order_shrinks_worker s1])
  show ?thesis
    using s1 w by (cases r) (simp_all add: ExecuteDueOrders_def d split_beta)
qed

lemma records_keyed_shrinks:
  assumes "order_shrinks s' s" and "records_keyed s"
  shows "records_keyed s'"
  unfolding records_keyed_def
proof (intro allI impI)
  fix k e ttl
  assume r: "strings s' (order_key k) = Some (Json e, ttl)"
  from assms(1) have "strings s' (order_key k) = None \<or> strings s' (order_key k) = strings s (order_key k)"
    by (simp add: order_shrinks_def)
  with r have "strings s (order_key k) = Some (Json e, ttl)"
    by auto
  with assms(2) show "ID (entry_Order e) = k"
    unfolding records_keyed_def by blast
qed

lemma keyed_absent_shrinks:
  assumes "order_shrinks s' s" and "records_keyed s \<and> strings s (order_key m) = None"
  shows "records_keyed s' \<and> strings s' (order_key m) = None"
proof
  from assms show "records_keyed s'"
    by (simp add: records_keyed_shrinks)
  from assms(1) have "strings s' (order_key m) = None \<or> strings s' (order_key m) = strings s (order_key m)"
    by (simp add: order_shrinks_def)
  with assms(2) show "strings s' (order_key m) = None"
    by auto
qed

lemma keyed_absent_StoreOrder:
  assumes "ID order \<noteq> m" and "records_keyed s \<and> strings s (order_key m) = None"
  shows "records_keyed (snd (StoreOrder tz_ok local createdAt now order expiryTime s))
     \<and> strings (snd (StoreOrder tz_ok local createdAt now order expiryTime s)) (order_key m) = None"
  using assms by (auto simp: StoreOrder_alt records_keyed_def)

lemma keyed_absent_cache_orders:
  assumes "m \<notin> ID ` set orders" and "records_keyed s \<and> strings s (order_key m) = None"
  shows "records_keyed (cache_orders tz_ok local clock orders s)
     \<and> strings (cache_orders tz_ok local clock orders s) (order_key m) = None"
  using assms
proof (induction orders arbitrary: s)
  case Nil
  then show ?case by simp
next
  case (Cons order orders)
  from Cons.prems(1) have n: "ID order \<noteq> m" and r: "m \<notin> ID ` set orders"
    by auto
  note st = keyed_absent_StoreOrder [OF n Cons.prems(2), of tz_ok local "fst (clock order)"
      "snd (clock order)" "Add (ScheduledTime order) (10 * Second)"]
  from Cons.IH [OF r st] show ?case
    by (simp add: Let_def)
qed

lemma keyed_absent_apply_op:
  assumes "\<not> stores_id m a" and "records_keyed s \<and> strings s (order_key m) = None"
  shows "records_keyed (apply_op a s) \<and> strings (apply_op a s) (order_key m) = None"
proof (cases a)
  case (OpStore tz_ok local createdAt now order expiryTime)
  with assms(1) have "ID order \<noteq> m"
    by simp
  from keyed_absent_StoreOrder [OF this assms(2)] OpStore show ?thesis
    by simp
next
  case (OpRemove orderID)
  from keyed_absent_shrinks [OF shrinks_order_shrinks [OF shrinks_RemoveOrder] assms(2)] OpRemove
  show ?thesis
    by simp
next
  case (OpDue now)
  from keyed_absent_shrinks [OF shrinks_order_shrinks [OF shrinks_due] assms(2)] OpDue
  show ?thesis
    by simp
next
  case (OpTryLock orderID ttl)
  from keyed_absent_shrinks [OF order_shrinks_TryLock assms(2)] OpTryLock
  show ?thesis
    by simp
next
  case (OpReleaseLock orderID)
  from keyed_absent_shrinks [OF shrinks_order_shrinks [OF shrinks_ReleaseLock] assms(2)] OpReleaseLock
  show ?thesis
    by simp
next
  case (OpExecute env order)
  from keyed_absent_shrinks [OF order_shrinks_executeOrder assms(2)] OpExecute
  show ?thesis
    by simp
next
  case (OpRun env now)
  from keyed_absent_shrinks [OF order_shrinks_ExecuteDueOrders assms(2)] OpRun
  show ?thesis
    by simp
next
  case (OpIngest f tz_ok local nowBuy nowSell clock buy sell)
  with assms(1) have "m \<notin> ID ` set
        ((case buy of None \<Rightarrow> [] | Some rows \<Rightarrow> parseRows f tz_ok ''Buy'' nowBuy rows [])
         @ (case sell of None \<Rightarrow> [] | Some rows \<Rightarrow> parseRows f tz_ok ''Sell'' nowSell rows []))"
    by simp
  from keyed_absent_cache_orders [OF this assms(2)] OpIngest show ?thesis
    by (simp add: readAndCacheOrders_def Let_def)
next
  case (OpExpire key)
  have "order_shrinks (s\<lparr>strings := (strings s)(key := None)\<rparr>) s"
    by (simp add: order_shrinks_def)
  from keyed_absent_shrinks [OF this assms(2)] OpExpire show ?thesis
    by simp
qed

lemma keyed_absent_run_ops:
  assumes "\<forall>a \<in> set ops. \<not> stores_id m a" and "records_keyed s \<and> strings s (order_key m) = None"
  shows "records_keyed (run_ops ops s) \<and> strings (run_ops ops s) (order_key m) = None"
  using assms
proof (induction ops arbitrary: s)
  case Nil
  then show ?case by simp
next
  case (Cons a ops)
  from Cons.prems(1) have a: "\<not> stores_id m a" and r: "\<forall>a \<in> set ops. \<not> stores_id m a"
    by simp_all
  from Cons.IH [OF r keyed_absent_apply_op [OF a Cons.prems(2)]] show ?case
    by simp
qed

lemma due_never_absent:
  assumes "records_keyed s \<and> strings s (order_key m) = None"
    and "GetOrdersDueForExecution now s = (Inr orders, s')"
  shows "m \<notin> ID ` set orders"
proof
  assume "m \<in> ID ` set orders"
  then obtain x where x: "x \<in> set orders" "ID x = m"
    by auto
  from due_orders_sound [OF assms(2) x(1)]
  obtain m' e ttl where e: "strings s (order_key m') = Some (Json e, ttl)" "entry_Order e = x"
    by blast
  with assms(1) x(2) have "m' = m"
    by (auto simp: records_keyed_def)
  with e(1) assms(1) show False
    by simp
qed

lemma records_keyed_xyz: "records_keyed xyz_store"
  by (simp add: records_keyed_def xyz_store_eq)

text \<open>
  Claim C1, as amended. Once the lock is acquired, \<^verbatim>\<open>RemoveOrder\<close> is called exactly once
  on every path, before the lock is released, which is the last thing the attempt does.
  After a broker call without error the removal comes before the outcome is logged.
  When the removal goes through, the record and the index entry are gone, and, in a store
  whose records are keyed by the id of their order, no due query returns an order with that
  id, whatever runs in between (calls of the cache, dispatch attempts and runs, ingester
  runs, keys expiring), as long as no order with that id is inserted again. When the first
  command of the removal fails, the record and the index are as before the attempt.
\<close>

theorem removal_after_every_attempt:
  assumes "TryLock (ID ord) (30 * Second) s = (Inr True, s1)"
  shows "count_list (fst (executeOrder env ord s)) (CallRemoveOrder (ID ord)) = 1
       \<and> precedes (CallRemoveOrder (ID ord)) (CallReleaseLock (ID ord)) (fst (executeOrder env ord s))
       \<and> last (fst (executeOrder env ord s)) = CallReleaseLock (ID ord)
       \<and> (snd (snd (BrokerManager_ExecuteOrder env ord)) = None \<longrightarrow>
            precedes (CallRemoveOrder (ID ord))
              (LogOutcome (ID ord) (Success (fst (snd (BrokerManager_ExecuteOrder env ord)))))
              (fst (executeOrder env ord s)))
       \<and> (fst (RemoveOrder (ID ord) s1) = Inr () \<longrightarrow>
            strings (snd (executeOrder env ord s)) (order_key (ID ord)) = None
          \<and> ID ord \<notin> fst ` set (pending_orders (snd (executeOrder env ord s)))
          \<and> (records_keyed s \<longrightarrow>
               (\<forall>ops now orders s'.
                  (\<forall>a \<in> set ops. \<not> stores_id (ID ord) a)
                  \<and> GetOrdersDueForExecution now (run_ops ops (snd (executeOrder env ord s)))
                      = (Inr orders, s')
                  \<longrightarrow> ID ord \<notin> ID ` set orders)))
       \<and> (fst (RemoveOrder (ID ord) s1) = Inl RemoveFailed \<longrightarrow>
            strings (snd (executeOrder env ord s)) (order_key (ID ord)) = strings s (order_key (ID ord))
          \<and> pending_orders (snd (executeOrder env ord s)) = pending_orders s)"
proof (intro conjI impI allI)
  note x = executeOrder_locked [OF assms, of env]
  show "count_list (fst (executeOrder env ord s)) (CallRemoveOrder (ID ord)) = 1"
    by (simp add: x BrokerManager_events(1))
  show "precedes (CallRemoveOrder (ID ord)) (CallReleaseLock (ID ord)) (fst (executeOrder env ord s))"
    by (simp add: x BrokerManager_events(1) precedes_def)
  show "last (fst (executeOrder env ord s)) = CallReleaseLock (ID ord)"
    by (simp add: x)
  show "precedes (CallRemoveOrder (ID ord))
          (LogOutcome (ID ord) (Success (fst (snd (BrokerManager_ExecuteOrder env ord)))))
          (fst (executeOrder env ord s))"
    if "snd (snd (BrokerManager_ExecuteOrder env ord)) = None"
    using that by (simp add: x BrokerManager_events(1) precedes_def)
  have s1: "s1 = snd (TryLock (ID ord) (30 * Second) s)"
    by (simp add: assms)
  {
    assume r: "fst (RemoveOrder (ID ord) s1) = Inr ()"
    have sh: "shrinks (snd (executeOrder env ord s)) (snd (RemoveOrder (ID ord) s1))"
      by (simp add: x shrinks_ReleaseLock)
    show gone: "strings (snd (executeOrder env ord s)) (order_key (ID ord)) = None"
      by (rule shrinks_gone(1) [OF sh RemoveOrder_Inr(1) [OF r]])
    show "ID ord \<notin> fst ` set (pending_orders (snd (executeOrder env ord s)))"
      by (rule shrinks_gone(2) [OF sh RemoveOrder_Inr(2) [OF r]])
    fix ops now orders s'
    assume k: "records_keyed s"
      and d: "(\<forall>a \<in> set ops. \<not> stores_id (ID ord) a)
          \<and> GetOrdersDueForExecution now (run_ops ops (snd (executeOrder env ord s))) = (Inr orders, s')"
    have "records_keyed (snd (executeOrder env ord s))"
      by (rule records_keyed_shrinks [OF order_shrinks_executeOrder k])
    with gone have p: "records_keyed (snd (executeOrder env ord s))
        \<and> strings (snd (executeOrder env ord s)) (order_key (ID ord)) = None"
      by simp
    from d have n: "\<forall>a \<in> set ops. \<not> stores_id (ID ord) a"
      and g: "GetOrdersDueForExecution now (run_ops ops (snd (executeOrder env ord s))) = (Inr orders, s')"
      by simp_all
    show "ID ord \<notin> ID ` set orders"
      by (rule due_never_absent [OF keyed_absent_run_ops [OF n p] g])
  }
  assume f: "fst (RemoveOrder (ID ord) s1) = Inl RemoveFailed"
  show "strings (snd (executeOrder env ord s)) (order_key (ID ord)) = strings s (order_key (ID ord))"
    by (simp add: x ReleaseLock_orders RemoveOrder_failed(1) [OF f]) (simp add: s1 TryLock_orders)
  show "pending_orders (snd (executeOrder env ord s)) = pending_orders s"
    by (simp add: x ReleaseLock_orders RemoveOrder_failed(2) [OF f]) (simp add: s1 TryLock_orders)
qed

lemma xyz_dispatched:
  "executeOrder \<lparr>ctx_done = (\<lambda>x. False), wait_ok = (\<lambda>x. True),
        broker_reply = (\<lambda>x. (zero_result\<lparr>Success := True\<rparr>, None))\<rparr> xyz_order xyz_store
     = ([CallTryLock (ID xyz_order), CallRateWait (ID xyz_order), CallBroker xyz_order,
         CallRemoveOrder (ID xyz_order), LogOutcome (ID xyz_order) True,
         CallReleaseLock (ID xyz_order)], empty_redis)"
  by (simp add: executeOrder_locked [OF xyz_locked] BrokerManager_ExecuteOrder_def
      xyz_removed xyz_released zero_result_def)

theorem removal_after_every_attempt_witness:
  "executeOrder \<lparr>ctx_done = (\<lambda>x. False), wait_ok = (\<lambda>x. True),
        broker_reply = (\<lambda>x. (zero_result\<lparr>Success := True\<rparr>, None))\<rparr> xyz_order xyz_store
     = ([CallTryLock (ID xyz_order), CallRateWait (ID xyz_order), CallBroker xyz_order,
         CallRemoveOrder (ID xyz_order), LogOutcome (ID xyz_order) True,
         CallReleaseLock (ID xyz_order)], empty_redis)
   \<and> precedes (CallRemoveOrder (ID xyz_order)) (LogOutcome (ID xyz_order) True)
        (fst (executeOrder \<lparr>ctx_done = (\<lambda>x. False), wait_ok = (\<lambda>x. True),
           broker_reply = (\<lambda>x. (zero_result\<lparr>Success := True\<rparr>, None))\<rparr> xyz_order xyz_store))
   \<and> strings (snd (executeOrder \<lparr>ctx_done = (\<lambda>x. False), wait_ok = (\<lambda>x. True),
           broker_reply = (\<lambda>x. (zero_result\<lparr>Success := True\<rparr>, None))\<rparr> xyz_order xyz_store))
        (order_key (ID xyz_order)) = None
   \<and> fst (GetOrdersDueForExecution (1741579205 * Second)
        (run_ops
           [OpRun \<lparr>ctx_done = (\<lambda>x. False), wait_ok = (\<lambda>x. True),
                    broker_reply = (\<lambda>x. (zero_result\<lparr>Success := True\<rparr>, None))\<rparr>
              (1741579203 * Second),
            OpStore True 0 (1741579204 * Second) (1741579204 * Second)
              (xyz_order\<lparr>ID := ''ABC:2025-03-10T09:30:00+05:30'', Symbol := ''ABC''\<rparr>)
              (1741579210 * Second)]
           (snd (executeOrder \<lparr>ctx_done = (\<lambda>x. False), wait_ok = (\<lambda>x. True),
              broker_reply = (\<lambda>x. (zero_result\<lparr>Success := True\<rparr>, None))\<rparr> xyz_order xyz_store))))
       = Inr [xyz_order\<lparr>ID := ''ABC:2025-03-10T09:30:00+05:30'', Symbol := ''ABC''\<rparr>]
   \<and> ID xyz_order \<notin> ID ` set [xyz_order\<lparr>ID := ''ABC:2025-03-10T09:30:00+05:30'', Symbol := ''ABC''\<rparr>]"
proof -
  let ?env = "\<lparr>ctx_done = (\<lambda>x. False), wait_ok = (\<lambda>x. True),
        broker_reply = (\<lambda>x. (zero_result\<lparr>Success := True\<rparr>, None))\<rparr>"
  let ?abc = "xyz_order\<lparr>ID := ''ABC:2025-03-10T09:30:00+05:30'', Symbol := ''ABC''\<rparr>"
  let ?ops = "[OpRun ?env (1741579203 * Second),
               OpStore True 0 (1741579204 * Second) (1741579204 * Second) ?abc (1741579210 * Second)]"
  let ?st = "\<lparr>strings = [order_key (ID ?abc) \<mapsto>
         (Json \<lparr>entry_Order = ?abc, ExpiryTime = 1741579210 * Second,
                entry_CreatedAt = 1741579204 * Second\<rparr>, 6 * Second)],
      pending_orders = [(ID ?abc, 1741579200)], faults = []\<rparr>"
  note x = xyz_dispatched
  have b: "snd (snd (BrokerManager_ExecuteOrder ?env xyz_order)) = None"
      "Success (fst (snd (BrokerManager_ExecuteOrder ?env xyz_order))) = True"
    by (simp_all add: BrokerManager_ExecuteOrder_def zero_result_def)
  have r: "fst (RemoveOrder (ID xyz_order)
      (xyz_store\<lparr>strings := (strings xyz_store)(lock_key (ID xyz_order) \<mapsto> (Raw ''1'', 30 * Second))\<rparr>))
      = Inr ()"
    by (simp add: xyz_removed)
  have n: "\<forall>a \<in> set ?ops. \<not> stores_id (ID xyz_order) a"
    by (simp add: xyz_order_def)
  have u: "Until (1741579204 * Second) (1741579210 * Second) = 6 * Second"
    by (simp add: Until_def Let_def Second_def maxDuration_def minDuration_def)
  have m: "ToJSON True 0 \<lparr>entry_Order = ?abc, ExpiryTime = 1741579210 * Second,
              entry_CreatedAt = 1741579204 * Second\<rparr>
      = Some (Json \<lparr>entry_Order = ?abc, ExpiryTime = 1741579210 * Second,
              entry_CreatedAt = 1741579204 * Second\<rparr>)"
    by (simp add: ToJSON_def year_in_range_def location_offset_def Unix_def Second_def xyz_order_def)
  have so: "snd (StoreOrder True 0 (1741579204 * Second) (1741579204 * Second) ?abc
      (1741579210 * Second) empty_redis) = ?st"
    by (simp add: StoreOrder_alt m u next_fault_def empty_redis_def)
       (simp add: xyz_order_def Unix_def Second_def)
  have ro: "run_ops ?ops empty_redis = ?st"
    by (simp add: ExecuteDueOrders_def due_empty so)
  have d0: "GetOrdersDueForExecution (1741579205 * Second) ?st = (Inr [?abc], ?st)"
    by (simp add: GetOrdersDueForExecution_def redis_ZRangeByScore_alt next_fault_def
      due_step_def redis_Get_alt After_def Let_def Unix_def Second_def)
  have d: "GetOrdersDueForExecution (1741579205 * Second)
      (run_ops ?ops (snd (executeOrder ?env xyz_order xyz_store))) = (Inr [?abc], ?st)"
    unfolding x snd_conv ro by (rule d0)
  note t = removal_after_every_attempt [OF xyz_locked, of ?env]
  from t b have p: "precedes (CallRemoveOrder (ID xyz_order)) (LogOutcome (ID xyz_order) True)
          (fst (executeOrder ?env xyz_order xyz_store))"
    by simp
  from t r have g: "strings (snd (executeOrder ?env xyz_order xyz_store)) (order_key (ID xyz_order)) = None"
    by blast
  from t r records_keyed_xyz n d have a: "ID xyz_order \<notin> ID ` set [?abc]"
    by blast
  from d have d': "fst (GetOrdersDueForExecution (1741579205 * Second)
      (run_ops ?ops (snd (executeOrder ?env xyz_order xyz_store)))) = Inr [?abc]"
    by simp
  from x p g d' a show ?thesis
    by (intro conjI)
qed

theorem order_retried_counterexample:
  "ExecuteDueOrders \<lparr>ctx_done = (\<lambda>x. False), wait_ok = (\<lambda>x. True),
        broker_reply = (\<lambda>x. (zero_result\<lparr>Success := True\<rparr>, None))\<rparr>
      (1741579200 * Second) xyz_store
     = (Inr (),
        [CallTryLock (ID xyz_order), CallRateWait (ID xyz_order), CallBroker xyz_order,
         CallRemoveOrder (ID xyz_order), LogOutcome (ID xyz_order) True,
         CallReleaseLock (ID xyz_order)], empty_redis)
   \<and> ExecuteDueOrders \<lparr>ctx_done = (\<lambda>x. False), wait_ok = (\<lambda>x. True),
        broker_reply = (\<lambda>x. (zero_result\<lparr>Success := True\<rparr>, None))\<rparr>
      (1741579201 * Second)
      (readAndCacheOrders (\<lambda>t. ''2025-03-10T09:30:00+05:30'') True 0
         (1741579199940000000) (1741579199940000000)
         (\<lambda>x. (1741579200260000000, 1741579200260000000))
         (Some [(\<lparr>row_price = Num 100, row_symbol = ''XYZ'',
                   row_scheduledTime = 1741579200 * Second, row_lots = Some 1,
                   row_totalQuantity = 5, row_exchange = ''NSE''\<rparr>, 1741579199950000000)])
         (Some [])
         (snd (snd (ExecuteDueOrders \<lparr>ctx_done = (\<lambda>x. False), wait_ok = (\<lambda>x. True),
            broker_reply = (\<lambda>x. (zero_result\<lparr>Success := True\<rparr>, None))\<rparr>
            (1741579200 * Second) xyz_store))))
     = (Inr (),
        [CallTryLock (ID xyz_order), CallRateWait (ID xyz_order),
         CallBroker (xyz_order\<lparr>CreatedAt := 1741579199940000000\<rparr>),
         CallRemoveOrder (ID xyz_order), LogOutcome (ID xyz_order) True,
         CallReleaseLock (ID xyz_order)], empty_redis)
   \<and> ID (xyz_order\<lparr>CreatedAt := 1741579199940000000\<rparr>) = ID xyz_order
   \<and> ScheduledTime (xyz_order\<lparr>CreatedAt := 1741579199940000000\<rparr>) = ScheduledTime xyz_order
   \<and> GetOrdersDueForExecution (1741579205 * Second)
        (snd (executeOrder \<lparr>ctx_done = (\<lambda>x. False), wait_ok = (\<lambda>x. True),
           broker_reply = (\<lambda>x. (zero_result\<lparr>Success := True\<rparr>, None))\<rparr>
           xyz_order (xyz_store\<lparr>faults := [False, True]\<rparr>)))
     = (Inr [xyz_order], xyz_store)"
proof -
  let ?env = "\<lparr>ctx_done = (\<lambda>x. False), wait_ok = (\<lambda>x. True),
        broker_reply = (\<lambda>x. (zero_result\<lparr>Success := True\<rparr>, None))\<rparr>"
  let ?o2 = "xyz_order\<lparr>CreatedAt := 1741579199940000000\<rparr>"
  let ?rows = "[(\<lparr>row_price = Num 100, row_symbol = ''XYZ'',
                   row_scheduledTime = 1741579200 * Second, row_lots = Some 1,
                   row_totalQuantity = 5, row_exchange = ''NSE''\<rparr>, 1741579199950000000::int)]"
  let ?st = "\<lparr>strings = [order_key (ID xyz_order) \<mapsto>
         (Json \<lparr>entry_Order = ?o2, ExpiryTime = 1741579210 * Second,
                entry_CreatedAt = 1741579200260000000\<rparr>, 9740000000)],
      pending_orders = [(ID xyz_order, 1741579200)], faults = []\<rparr>"
  let ?held = "xyz_store\<lparr>strings := (strings xyz_store)(lock_key (ID xyz_order) \<mapsto> (Raw ''1'', 30 * Second))\<rparr>"
  have d1: "GetOrdersDueForExecution (1741579200 * Second) xyz_store = (Inr [xyz_order], xyz_store)"
    by (rule due_xyz) (simp_all add: Second_def)
  have r1: "ExecuteDueOrders ?env (1741579200 * Second) xyz_store
     = (Inr (),
        [CallTryLock (ID xyz_order), CallRateWait (ID xyz_order), CallBroker xyz_order,
         CallRemoveOrder (ID xyz_order), LogOutcome (ID xyz_order) True,
         CallReleaseLock (ID xyz_order)], empty_redis)"
    by (simp add: ExecuteDueOrders_def d1 xyz_dispatched)
  have os: "parseRows (\<lambda>t. ''2025-03-10T09:30:00+05:30'') True ''Buy'' 1741579199940000000 ?rows []
      = [?o2]"
    by (simp add: parse_row_def Let_def lots_loop_upto lot_order_def Before_def Second_def
        GenerateOrderID_def ToUpper_def upper_char_def shouldUseAMO_def Hour_def Minute_def
        local_seconds_def location_offset_def Unix_def xyz_order_def)
  have u: "Until 1741579200260000000 (1741579210 * Second) = 9740000000"
    by (simp add: Until_def Let_def Second_def maxDuration_def minDuration_def)
  have m: "ToJSON True 0 \<lparr>entry_Order = ?o2, ExpiryTime = 1741579210 * Second,
              entry_CreatedAt = 1741579200260000000\<rparr>
      = Some (Json \<lparr>entry_Order = ?o2, ExpiryTime = 1741579210 * Second,
              entry_CreatedAt = 1741579200260000000\<rparr>)"
    by (simp add: ToJSON_def year_in_range_def location_offset_def Unix_def Second_def xyz_order_def)
  have e: "Add (ScheduledTime ?o2) (10 * Second) = 1741579210 * Second"
    by (simp add: Add_def xyz_order_def Second_def)
  have so: "snd (StoreOrder True 0 1741579200260000000 1741579200260000000 ?o2
      (1741579210 * Second) empty_redis) = ?st"
    by (simp add: StoreOrder_alt m u next_fault_def empty_redis_def)
       (simp add: xyz_order_def Unix_def Second_def)
  have ing: "readAndCacheOrders (\<lambda>t. ''2025-03-10T09:30:00+05:30'') True 0
         1741579199940000000 1741579199940000000
         (\<lambda>x. (1741579200260000000, 1741579200260000000)) (Some ?rows) (Some []) empty_redis = ?st"
    by (simp only: readAndCacheOrders_def Let_def option.case os parseRows.simps(1) append_Nil2
      cache_orders.simps e fst_conv snd_conv so)
  have d2: "GetOrdersDueForExecution (1741579201 * Second) ?st = (Inr [?o2], ?st)"
    by (simp add: GetOrdersDueForExecution_def redis_ZRangeByScore_alt next_fault_def
      due_step_def redis_Get_alt After_def Let_def Unix_def Second_def)
  have l2: "TryLock (ID ?o2) (30 * Second) ?st
      = (Inr True, ?st\<lparr>strings := (strings ?st)(lock_key (ID xyz_order) \<mapsto> (Raw ''1'', 30 * Second))\<rparr>)"
    by (simp add: TryLock_alt next_fault_def)
  have rm2: "RemoveOrder (ID xyz_order)
      (?st\<lparr>strings := (strings ?st)(lock_key (ID xyz_order) \<mapsto> (Raw ''1'', 30 * Second))\<rparr>)
      = (Inr (), empty_redis\<lparr>strings := [lock_key (ID xyz_order) \<mapsto> (Raw ''1'', 30 * Second)]\<rparr>)"
    by (simp add: RemoveOrder_alt next_fault_def empty_redis_def fun_upd_twist)
  have x2: "executeOrder ?env ?o2 ?st
     = ([CallTryLock (ID xyz_order), CallRateWait (ID xyz_order), CallBroker ?o2,
         CallRemoveOrder (ID xyz_order), LogOutcome (ID xyz_order) True,
         CallReleaseLock (ID xyz_order)], empty_redis)"
    using rm2
    by (simp add: executeOrder_locked [OF l2] BrokerManager_ExecuteOrder_def
        xyz_released zero_result_def)
  have r2: "ExecuteDueOrders ?env (1741579201 * Second) ?st
     = (Inr (),
        [CallTryLock (ID xyz_order), CallRateWait (ID xyz_order), CallBroker ?o2,
         CallRemoveOrder (ID xyz_order), LogOutcome (ID xyz_order) True,
         CallReleaseLock (ID xyz_order)], empty_redis)"
    by (simp add: ExecuteDueOrders_def d2 x2)
  have l: "TryLock (ID xyz_order) (30 * Second) (xyz_store\<lparr>faults := [False, True]\<rparr>)
     = (Inr True, ?held\<lparr>faults := [True]\<rparr>)"
    by (simp add: TryLock_alt next_fault_def xyz_store_eq)
  have r: "RemoveOrder (ID xyz_order) (?held\<lparr>faults := [True]\<rparr>) = (Inl RemoveFailed, ?held)"
    by (simp add: RemoveOrder_alt next_fault_def xyz_store_eq)
  have rl: "ReleaseLock (ID xyz_order) ?held = (Inr (), xyz_store)"
    by (simp add: ReleaseLock_alt next_fault_def xyz_store_eq)
  have b: "snd (executeOrder ?env xyz_order (xyz_store\<lparr>faults := [False, True]\<rparr>)) = xyz_store"
    by (simp add: executeOrder_locked [OF l] r rl)
  have d3: "GetOrdersDueForExecution (1741579205 * Second) xyz_store = (Inr [xyz_order], xyz_store)"
    by (rule due_xyz) (simp_all add: Second_def)
  show ?thesis
    unfolding r1 snd_conv ing r2 b d3 by simp
qed

end
